theory Spec2Isabelle
  imports Complex_Main "HOL-Library.Sublist" "HOL-Library.AList" "HOL-Library.Char_ord"
    "HOL-Library.List_Lexorder" "HOL-Library.Product_Lexorder"
begin

section \<open>Values and Python errors\<close>

text \<open>
  The scripts compute on pandas columns of 64-bit floats.  Finite values are idealised
  as reals (no rounding, no overflow or underflow).  Zero keeps its sign: \<open>Fin 0\<close> is
  \<open>0.0\<close> and \<open>NegZero\<close> is \<open>-0.0\<close>.  The non-finite results of a float division are
  kept, because numpy scalars do not raise on division by zero: a non-zero number over a
  zero is an infinity whose sign is the product of the two signs, a zero over a zero is
  \<open>nan\<close>.  (The values read back from a frame are numpy scalars; with plain Python
  floats the same division would raise ZeroDivisionError.)
\<close>

datatype fval = Fin real | NegZero | PInf | NInf | NaN

text \<open>
  Subtraction, rounding to nearest: a difference that is zero is \<open>0.0\<close>, except
  \<open>-0.0 - 0.0 = -0.0\<close>.
\<close>

fun fsub :: "fval \<Rightarrow> fval \<Rightarrow> fval" where
  "fsub NaN _ = NaN"
| "fsub _ NaN = NaN"
| "fsub PInf PInf = NaN"
| "fsub NInf NInf = NaN"
| "fsub PInf _ = PInf"
| "fsub NInf _ = NInf"
| "fsub _ PInf = NInf"
| "fsub _ NInf = PInf"
| "fsub (Fin a) (Fin b) = Fin (a - b)"
| "fsub (Fin a) NegZero = Fin a"
| "fsub NegZero (Fin b) = (if b = 0 then NegZero else Fin (- b))"
| "fsub NegZero NegZero = Fin 0"

fun fdiv :: "fval \<Rightarrow> fval \<Rightarrow> fval" where
  "fdiv NaN _ = NaN"
| "fdiv _ NaN = NaN"
| "fdiv (Fin a) (Fin b) =
     (if b \<noteq> 0 then (if a = 0 then (if 0 < b then Fin 0 else NegZero) else Fin (a / b))
      else if 0 < a then PInf else if a < 0 then NInf else NaN)"
| "fdiv (Fin a) NegZero = (if 0 < a then NInf else if a < 0 then PInf else NaN)"
| "fdiv NegZero (Fin b) = (if 0 < b then NegZero else if b < 0 then Fin 0 else NaN)"
| "fdiv NegZero NegZero = NaN"
| "fdiv (Fin a) PInf = (if a < 0 then NegZero else Fin 0)"
| "fdiv (Fin a) NInf = (if a < 0 then Fin 0 else NegZero)"
| "fdiv NegZero PInf = NegZero"
| "fdiv NegZero NInf = Fin 0"
| "fdiv PInf (Fin b) = (if 0 \<le> b then PInf else NInf)"
| "fdiv PInf NegZero = NInf"
| "fdiv NInf (Fin b) = (if 0 \<le> b then NInf else PInf)"
| "fdiv NInf NegZero = PInf"
| "fdiv _ _ = NaN"

datatype error = IndexError | KeyError | FileNotFoundError | ValueError

text \<open>
  A function that mutates a dictionary or writes files and may raise is modelled with the
  result \<open>Inr\<close> of the final state when it returns and \<open>Inl\<close> of the exception and the
  state at that moment when it raises.  \<open>state_after\<close> is the state it leaves behind
  either way.
\<close>

definition state_after :: "(error \<times> 's) + 's \<Rightarrow> 's" where
  "state_after r = (case r of Inl (e, s) \<Rightarrow> s | Inr s \<Rightarrow> s)"

section \<open>Python string helpers\<close>

text \<open>\<open>sub in s\<close> on Python strings.\<close>

fun str_contains :: "string \<Rightarrow> string \<Rightarrow> bool" where
  "str_contains sub [] = (sub = [])"
| "str_contains sub (c # cs) = (prefix sub (c # cs) \<or> str_contains sub cs)"

text \<open>
  \<open>s.split(sep)\<close> for a non-empty separator: the pieces between the non-overlapping
  occurrences of \<open>sep\<close>, scanned from the left.  \<open>acc\<close> holds the current piece,
  reversed.
\<close>

function split_aux :: "string \<Rightarrow> string \<Rightarrow> string \<Rightarrow> string list" where
  "split_aux sep acc [] = [rev acc]"
| "split_aux sep acc (c # cs) =
     (if sep \<noteq> [] \<and> prefix sep (c # cs)
      then rev acc # split_aux sep [] (drop (length sep) (c # cs))
      else split_aux sep (c # acc) cs)"
  by pat_completeness auto
termination
  by (relation "measure (\<lambda>(sep, acc, s). length s)") auto

definition split :: "string \<Rightarrow> string \<Rightarrow> string list" where
  "split sep s = split_aux sep [] s"

section \<open>The metrics dictionary of ngfs_metrics.py\<close>

text \<open>
  \<open>metrics_dict\<close> maps a 9-tuple (the first nine names of \<open>METRICS_COLUMNS\<close>) to a
  value.  A Python dict keeps insertion order and \<open>pd.Series(metrics_dict)\<close> keeps it
  too, so the dictionary is an association list; an assignment \<open>metrics_dict[k] = v\<close>
  is \<open>AList.update k v\<close> (overwrite in place, or append).
\<close>

record mkey =
  grouping1 :: string
  grouping2 :: string
  grouping3 :: string
  modelrun_id :: string
  metric_id :: string
  intermediate_final :: string
  key :: string
  metric_desc :: string
  year :: string

type_synonym metrics_dict = "(mkey \<times> fval) list"

subsection \<open>calculate_change_between_run_and_base (lines 482-506)\<close>

text \<open>
  Lines 491-492: the descriptions of the rows of run \<open>tm_run_id\<close> whose metric id
  contains \<open>mid\<close>.  \<open>str.contains\<close> is a regular-expression search; both callers pass
  a literal (\<open>'Affordable 2'\<close>, \<open>'Reliable 1'\<close>), for which it is the substring test.
\<close>

definition metrics_list :: "string \<Rightarrow> string \<Rightarrow> metrics_dict \<Rightarrow> string list" where
  "metrics_list tm_run_id mid df =
     map (\<lambda>r. metric_desc (fst r))
       (filter (\<lambda>r. modelrun_id (fst r) = tm_run_id \<and> str_contains mid (metric_id (fst r))) df)"

text \<open>
  Lines 503 and 504: \<open>df.loc[modelrun_id == run].loc[metric_desc == metric].iloc[0]['value']\<close>;
  \<open>iloc[0]\<close> on an empty selection raises IndexError.
\<close>

definition iloc0_value :: "string \<Rightarrow> string \<Rightarrow> metrics_dict \<Rightarrow> error + fval" where
  "iloc0_value run metric df =
     (case filter (\<lambda>r. modelrun_id (fst r) = run \<and> metric_desc (fst r) = metric) df of
        [] \<Rightarrow> Inl IndexError
      | r # _ \<Rightarrow> Inr (snd r))"

text \<open>Lines 497-501: the grouping key carried from one iteration to the next.\<close>

definition next_key :: "string \<Rightarrow> string \<Rightarrow> string" where
  "next_key cur metric =
     (if str_contains ''_AM'' metric
      then last (split ''travel_time_'' (hd (split ''_AM'' metric)))
      else if str_contains ''across_key_corridors'' metric
      then ''Average Across Corridors''
      else cur)"

definition change_key :: "string \<Rightarrow> string \<Rightarrow> string \<Rightarrow> string \<Rightarrow> string \<Rightarrow> mkey" where
  "change_key k tm_run_id mid metric yr =
     \<lparr>grouping1 = k, grouping2 = '' '', grouping3 = '' '', modelrun_id = tm_run_id,
      metric_id = mid, intermediate_final = ''debug step'', key = ''By Corridor'',
      metric_desc = ''change_in_'' @ metric, year = yr\<rparr>"

definition pct_change_key :: "string \<Rightarrow> string \<Rightarrow> string \<Rightarrow> string \<Rightarrow> string \<Rightarrow> mkey" where
  "pct_change_key k tm_run_id mid metric yr =
     \<lparr>grouping1 = k, grouping2 = '' '', grouping3 = '' '', modelrun_id = tm_run_id,
      metric_id = mid, intermediate_final = ''debug step'', key = ''By Corridor'',
      metric_desc = ''pct_change_in_'' @ metric, year = yr\<rparr>"

text \<open>
  The loop of lines 496-506.  \<open>df\<close> is the frame built from the dictionary before the
  loop (it does not see the loop's writes); \<open>d\<close> is the dictionary being mutated.  An
  exception leaves the loop with the dictionary as written so far.
\<close>

fun change_loop ::
  "string \<Rightarrow> string \<Rightarrow> string \<Rightarrow> string \<Rightarrow> metrics_dict \<Rightarrow> string \<Rightarrow> string list \<Rightarrow>
   metrics_dict \<Rightarrow> (error \<times> metrics_dict) + metrics_dict" where
  "change_loop tm_run_id base yr mid df cur [] d = Inr d"
| "change_loop tm_run_id base yr mid df cur (metric # rest) d =
     (let k = next_key cur metric in
      case iloc0_value tm_run_id metric df of
        Inl e \<Rightarrow> Inl (e, d)
      | Inr val_run \<Rightarrow>
         (case iloc0_value base metric df of
            Inl e \<Rightarrow> Inl (e, d)
          | Inr val_base \<Rightarrow>
              change_loop tm_run_id base yr mid df k rest
                (AList.update (pct_change_key k tm_run_id mid metric yr)
                   (fdiv (fsub val_run val_base) val_base)
                   (AList.update (change_key k tm_run_id mid metric yr)
                      (fsub val_run val_base) d))))"

text \<open>
  Lines 487-489 turn the dictionary into a frame and name its ten columns; for an empty
  dictionary the frame has two columns only and the renaming raises ValueError.
\<close>

definition calculate_change_between_run_and_base ::
  "string \<Rightarrow> string \<Rightarrow> string \<Rightarrow> string \<Rightarrow> metrics_dict \<Rightarrow> (error \<times> metrics_dict) + metrics_dict" where
  "calculate_change_between_run_and_base tm_run_id base yr mid metrics_dict =
     (if metrics_dict = [] then Inl (ValueError, metrics_dict)
      else change_loop tm_run_id base yr mid metrics_dict ''Change''
             (metrics_list tm_run_id mid metrics_dict) metrics_dict)"


section \<open>The batch loop of the two scripts\<close>

text \<open>
  Both \<open>__main__\<close> blocks end in the same loop over \<open>current_runs_list\<close>
  (ngfs_metrics.py lines 2471-2586, Safe2_change_in_vmt.py lines 248-266).  The world
  the loop acts on is the output directory (file name to the rows written there) and the
  log; of the log only the three messages of the loop itself are recorded.  Neither
  script has a \<open>try\<close> around the loop body, so an exception raised while a run is
  processed leaves the loop: the result is then the error together with the world at
  that moment.
\<close>

record 'c world =
  files :: "string \<rightharpoonup> 'c"
  log :: "string list"

text \<open>
  \<open>os.path.join(os.getcwd(), name)\<close> for a relative \<open>name\<close> with no drive, as
  \<open>ntpath\<close> does it (the scripts address \<open>L:\<close> paths): a backslash is put between
  the two unless the directory already ends in a separator or a colon.
\<close>

definition os_path_join :: "string \<Rightarrow> string \<Rightarrow> string" where
  "os_path_join a b =
     (if a \<noteq> [] \<and> last a \<notin> {CHR 0x5C, CHR ''/'', CHR '':''} then a @ [CHR 0x5C] @ b else a @ b)"

definition skipping_msg :: "string \<Rightarrow> string \<Rightarrow> string" where
  "skipping_msg tm_run_id out_filename = ''Skipping '' @ tm_run_id @ '' -- '' @ out_filename @ '' exists''"

definition processing_msg :: "string \<Rightarrow> string" where
  "processing_msg tm_run_id = ''Processing run '' @ tm_run_id"

definition wrote_msg :: "string \<Rightarrow> string" where
  "wrote_msg out_filename = ''Wrote '' @ out_filename"

text \<open>
  \<open>skip\<close> is \<open>args.skip_if_exists\<close>, \<open>out\<close> gives a run's \<open>out_filename\<close>,
  \<open>process\<close> is everything between \<open>"Processing run"\<close> and \<open>to_csv\<close>.
\<close>

fun run_batch ::
  "bool \<Rightarrow> (string \<Rightarrow> string) \<Rightarrow> (string \<Rightarrow> error + 'c) \<Rightarrow> string list \<Rightarrow> 'c world \<Rightarrow>
   (error \<times> 'c world) + 'c world" where
  "run_batch skip out process [] w = Inr w"
| "run_batch skip out process (tm_run_id # rest) w =
     (if skip \<and> files w (out tm_run_id) \<noteq> None
      then run_batch skip out process rest
             (w\<lparr>log := log w @ [skipping_msg tm_run_id (out tm_run_id)]\<rparr>)
      else
        (case process tm_run_id of
           Inl e \<Rightarrow> Inl (e, w\<lparr>log := log w @ [processing_msg tm_run_id]\<rparr>)
         | Inr rows \<Rightarrow>
             run_batch skip out process rest
               (w\<lparr>files := (files w)(out tm_run_id \<mapsto> rows),
                  log := log w @ [processing_msg tm_run_id, wrote_msg (out tm_run_id)]\<rparr>)))"

subsection \<open>The loop body of ngfs_metrics.py (lines 2478-2585)\<close>

text \<open>
  A row of the output table: the nine key columns and the value
  (\<open>METRICS_COLUMNS\<close>).  \<open>metrics_dict_to_df\<close> (lines 2270-2284) turns each dictionary
  entry into one such row, in order, so on this representation it is the identity.
\<close>

type_synonym metric_row = "mkey \<times> fval"

definition metrics_dict_to_df :: "metrics_dict \<Rightarrow> metric_row list" where
  "metrics_dict_to_df metrics_dict = metrics_dict"

text \<open>
  The metric calculators read the run's files and may raise; here they are parameters.
  \<open>load_inputs\<close> stands for the reads of lines 2501-2546, whose result \<open>'i\<close> is handed
  to the calculators that take the loaded tables.  Those called with \<open>metrics_dict\<close>
  write into it; the others return a frame.
\<close>

record 'i calculators =
  load_inputs :: "string \<Rightarrow> error + 'i"
  c_Affordable1_transportation_costs :: "string \<Rightarrow> error + metric_row list"
  c_Affordable2_ratio_time_cost :: "string \<Rightarrow> 'i \<Rightarrow> metrics_dict \<Rightarrow> error + metrics_dict"
  c_Efficient1_ratio_travel_time :: "string \<Rightarrow> error + metric_row list"
  c_Efficient2_commute_mode_share :: "string \<Rightarrow> error + metric_row list"
  c_Reliable1_change_travel_time :: "string \<Rightarrow> 'i \<Rightarrow> metrics_dict \<Rightarrow> error + metrics_dict"
  c_Reliable2_ratio_peak_nonpeak :: "string \<Rightarrow> 'i \<Rightarrow> metrics_dict \<Rightarrow> error + metrics_dict"
  c_Safe1_fatalities_freeways_nonfreeways :: "string \<Rightarrow> 'i \<Rightarrow> metrics_dict \<Rightarrow> error + metrics_dict"
  c_Safe2_change_in_vmt :: "string \<Rightarrow> error + metric_row list"
  c_top_level_metrics :: "string \<Rightarrow> 'i \<Rightarrow> error + metric_row list"

text \<open>Sequencing of steps that may raise: the first exception ends the sequence.\<close>

definition and_then :: "error + 'a \<Rightarrow> ('a \<Rightarrow> error + 'b) \<Rightarrow> error + 'b" where
  "and_then r f = (case r of Inl e \<Rightarrow> Inl e | Inr x \<Rightarrow> f x)"

definition process_run :: "'i calculators \<Rightarrow> string \<Rightarrow> error + metric_row list" where
  "process_run cs tm_run_id =
     and_then (load_inputs cs tm_run_id) (\<lambda>inp.
     and_then (c_Affordable1_transportation_costs cs tm_run_id) (\<lambda>affordable1_metrics_df.
     and_then (c_Affordable2_ratio_time_cost cs tm_run_id inp []) (\<lambda>d1.
     and_then (c_Efficient1_ratio_travel_time cs tm_run_id) (\<lambda>efficient1_metrics_df.
     and_then (c_Efficient2_commute_mode_share cs tm_run_id) (\<lambda>efficient2_metrics_df.
     and_then (c_Reliable1_change_travel_time cs tm_run_id inp d1) (\<lambda>d2.
     and_then (c_Reliable2_ratio_peak_nonpeak cs tm_run_id inp d2) (\<lambda>d3.
     and_then (c_Safe1_fatalities_freeways_nonfreeways cs tm_run_id inp d3) (\<lambda>d4.
     and_then (c_Safe2_change_in_vmt cs tm_run_id) (\<lambda>safe2_metrics_df.
     and_then (c_top_level_metrics cs tm_run_id inp) (\<lambda>toplevel_metrics_df.
       Inr (affordable1_metrics_df @ efficient1_metrics_df @ efficient2_metrics_df @
            safe2_metrics_df @ toplevel_metrics_df @ metrics_dict_to_df d4)))))))))))"

definition ngfs_out_filename :: "string \<Rightarrow> string \<Rightarrow> string" where
  "ngfs_out_filename cwd tm_run_id = os_path_join cwd (''ngfs_metrics_'' @ tm_run_id @ ''.csv'')"

definition ngfs_metrics_main ::
  "bool \<Rightarrow> 'i calculators \<Rightarrow> string \<Rightarrow> string list \<Rightarrow> metric_row list world \<Rightarrow>
   (error \<times> metric_row list world) + metric_row list world" where
  "ngfs_metrics_main skip_if_exists cs cwd current_runs_list w =
     run_batch skip_if_exists (ngfs_out_filename cwd) (process_run cs) current_runs_list w"

section \<open>The pandas operations used by Safe2_change_in_vmt.py\<close>

text \<open>
  \<open>pd.merge(left, right, how='left')\<close> on key columns: the left rows in their order;
  each is paired with every right row of the same key, in the right table's order, or
  with nothing (null columns) when there is none.
\<close>

definition merge_left :: "('l \<Rightarrow> 'k) \<Rightarrow> ('r \<Rightarrow> 'k) \<Rightarrow> 'l list \<Rightarrow> 'r list \<Rightarrow> ('l \<times> 'r option) list" where
  "merge_left left_on right_on left right =
     concat (map (\<lambda>l. case filter (\<lambda>r. right_on r = left_on l) right of
                          [] \<Rightarrow> [(l, None)]
                        | ms \<Rightarrow> map (\<lambda>r. (l, Some r)) ms) left)"

text \<open>\<open>drop_duplicates(subset)\<close>, keeping the first row of each key; \<open>seen\<close> are the keys met so far.\<close>

fun drop_duplicates_from :: "('a \<Rightarrow> 'k) \<Rightarrow> 'k list \<Rightarrow> 'a list \<Rightarrow> 'a list" where
  "drop_duplicates_from key_cols seen [] = []"
| "drop_duplicates_from key_cols seen (x # xs) =
     (if key_cols x \<in> set seen then drop_duplicates_from key_cols seen xs
      else x # drop_duplicates_from key_cols (key_cols x # seen) xs)"

definition drop_duplicates :: "('a \<Rightarrow> 'k) \<Rightarrow> 'a list \<Rightarrow> 'a list" where
  "drop_duplicates key_cols df = drop_duplicates_from key_cols [] df"

text \<open>
  \<open>df.sort_values(col, ascending=False).drop_duplicates(subset).sort_index()\<close>: the rows
  carry their position as index, are ordered by descending \<open>col\<close>, the first of each key
  is kept, and the kept rows are put back in index order.  The sort is taken stable;
  pandas does not promise which of several rows with equal \<open>col\<close> comes first.
\<close>

definition largest_first_dedup :: "('a \<Rightarrow> real) \<Rightarrow> ('a \<Rightarrow> 'k) \<Rightarrow> 'a list \<Rightarrow> 'a list" where
  "largest_first_dedup col key_cols df =
     map snd (sort_key fst
       (drop_duplicates (\<lambda>ir. key_cols (snd ir))
         (sort_key (\<lambda>ir. - col (snd ir)) (enumerate 0 df))))"

text \<open>
  \<open>df.groupby(by=keys).agg({col: 'sum', ...}).reset_index()\<close>.  \<open>keyf\<close> gives a row's
  key tuple, or \<open>None\<close> when one of its key columns is null: \<open>groupby\<close> leaves such rows
  out (\<open>dropna=True\<close>).  The groups come sorted by key; each carries the totals of the
  columns \<open>cols\<close> over its rows.
\<close>

definition groupby_sum ::
  "('r \<Rightarrow> 'k::linorder option) \<Rightarrow> ('r \<Rightarrow> real) list \<Rightarrow> 'r list \<Rightarrow> ('k \<times> real list) list" where
  "groupby_sum keyf cols df =
     map (\<lambda>k. (k, map (\<lambda>col. sum_list (map col (filter (\<lambda>r. keyf r = Some k) df))) cols))
       (sort (remdups (List.map_filter keyf df)))"

subsection \<open>Frames with named columns\<close>

datatype cell = Num real | Str string | Null

record frame =
  columns :: "string list"
  data :: "cell list list"

definition cell_at :: "string list \<Rightarrow> cell list \<Rightarrow> string \<Rightarrow> cell" where
  "cell_at cols row c = (case map_of (zip cols row) c of None \<Rightarrow> Null | Some v \<Rightarrow> v)"

text \<open>
  \<open>pd.concat([f, g])\<close>: the columns of \<open>f\<close>, then those of \<open>g\<close> that \<open>f\<close> lacks; the rows
  of \<open>f\<close>, then those of \<open>g\<close>, with nulls where a frame lacks a column.
\<close>

definition concat_frames :: "frame \<Rightarrow> frame \<Rightarrow> frame" where
  "concat_frames f g =
     (let cols = columns f @ filter (\<lambda>c. c \<notin> set (columns f)) (columns g) in
      \<lparr>columns = cols,
       data = map (\<lambda>row. map (cell_at (columns f) row) cols) (data f) @
              map (\<lambda>row. map (cell_at (columns g) row) cols) (data g)\<rparr>)"

text \<open>
  \<open>df.melt(id_vars=id_vars, var_name=var_name)\<close>: the value columns are all columns
  that are not id columns, in frame order; for each value column in turn, every row
  gives one long row: its id cells, the column's name, its cell of that column.  An id
  column that the frame lacks is a KeyError.
\<close>

definition value_vars :: "string list \<Rightarrow> frame \<Rightarrow> string list" where
  "value_vars id_vars f = filter (\<lambda>c. c \<notin> set id_vars) (columns f)"

definition long_row :: "string list \<Rightarrow> frame \<Rightarrow> string \<Rightarrow> cell list \<Rightarrow> cell list" where
  "long_row id_vars f c row =
     map (cell_at (columns f) row) id_vars @ [Str c, cell_at (columns f) row c]"

definition melt :: "string list \<Rightarrow> string \<Rightarrow> frame \<Rightarrow> error + frame" where
  "melt id_vars var_name f =
     (if \<not> list_all (\<lambda>c. c \<in> set (columns f)) id_vars then Inl KeyError
      else Inr \<lparr>columns = id_vars @ [var_name, ''value''],
                data = concat (map (\<lambda>c. map (long_row id_vars f c) (data f))
                                 (value_vars id_vars f))\<rparr>)"

text \<open>\<open>df[name] = constant\<close>: a new last column (the names used are new ones).\<close>

definition assign_const :: "string \<Rightarrow> cell \<Rightarrow> frame \<Rightarrow> frame" where
  "assign_const name v f = \<lparr>columns = columns f @ [name], data = map (\<lambda>row. row @ [v]) (data f)\<rparr>"

section \<open>calculate_Safe2_change_in_vmt (Safe2_change_in_vmt.py, lines 43-207)\<close>

subsection \<open>Input tables\<close>

text \<open>
  The rows of \<open>auto_times.csv\<close>, of \<open>avgload5period.csv\<close> (columns \<open>a\<close> and \<open>b\<close> are
  \<open>col_a\<close> and \<open>col_b\<close> here), of \<open>network_links_TAZ.csv\<close> (columns \<open>A\<close> and \<open>B\<close> are
  \<open>lt_A\<close> and \<open>lt_B\<close>) and of \<open>taz_epc_crosswalk.csv\<close>, with the columns the function
  reads.  A blank \<open>Income\<close> or \<open>tollclass\<close> is \<open>None\<close>.
\<close>

record auto_time_row =
  Income :: "string option"
  Mode :: string
  Vehicle_Miles :: real
  Vehicle_Minutes :: real

record link =
  col_a :: int
  col_b :: int
  ft :: int
  distance :: real
  volEA_tot :: real
  volAM_tot :: real
  volMD_tot :: real
  volPM_tot :: real
  volEV_tot :: real
  ctimEA :: real
  ctimAM :: real
  ctimMD :: real
  ctimPM :: real
  ctimEV :: real
  tollclass :: "int option"

record link_taz =
  lt_A :: int
  lt_B :: int
  TAZ1454 :: int
  linktaz_share :: real

record taz_epc_row =
  epc_TAZ1454 :: int
  taz_epc :: int

record safe2_inputs =
  auto_times_df :: "auto_time_row list"
  loaded_network_df :: "link list"
  tm_network_links_taz_df :: "link_taz list"

subsection \<open>Lines 77-88: VMT and VHT by household category\<close>

text \<open>
  The two group columns of a row; the second is the row's \<open>Income\<close> unless one of the
  four overwrites applies, so it is null for a household row with a blank \<open>Income\<close>.
\<close>

definition auto_times_groups :: "auto_time_row \<Rightarrow> string \<times> string option" where
  "auto_times_groups r =
     (let g = (''Household'', Income r);
          g = (if suffix ''ix'' (Mode r) then (''Non-Household'', Some ''ix'') else g);
          g = (if suffix ''air'' (Mode r) then (''Non-Household'', Some ''air'') else g);
          g = (if Mode r = ''zpv_tnc'' then (''Non-Household'', Some ''zpv_tnc'') else g);
          g = (if Mode r = ''truck'' then (''Truck'', Some ''truck'') else g)
      in g)"

definition auto_times_key :: "auto_time_row \<Rightarrow> (string \<times> string) option" where
  "auto_times_key r =
     (case snd (auto_times_groups r) of
        None \<Rightarrow> None
      | Some lvl \<Rightarrow> Some (fst (auto_times_groups r), lvl))"

text \<open>The result rows: the two group columns, \<open>VMT\<close> and \<open>VHT\<close>.\<close>

definition summarize_auto_times :: "auto_time_row list \<Rightarrow> ((string \<times> string) \<times> real \<times> real) list" where
  "summarize_auto_times df =
     map (\<lambda>(g, totals). (g, totals ! 0, totals ! 1 / 60))
       (groupby_sum auto_times_key [Vehicle_Miles, Vehicle_Minutes] df)"

subsection \<open>Lines 103-116: the link to TAZ to EPC lookup, and its join to the network\<close>

type_synonym link_epc = "link_taz \<times> taz_epc_row option"

definition tm_network_links_with_epc_df :: "link_taz list \<Rightarrow> taz_epc_row list \<Rightarrow> link_epc list" where
  "tm_network_links_with_epc_df links_taz epc =
     largest_first_dedup (\<lambda>r. linktaz_share (fst r)) (\<lambda>r. (lt_A (fst r), lt_B (fst r)))
       (merge_left TAZ1454 epc_TAZ1454 links_taz epc)"

type_synonym joined_link = "link \<times> link_epc option"

definition join_network :: "link list \<Rightarrow> link_taz list \<Rightarrow> taz_epc_row list \<Rightarrow> joined_link list" where
  "join_network network links_taz epc =
     merge_left (\<lambda>l. (col_a l, col_b l)) (\<lambda>r. (lt_A (fst r), lt_B (fst r))) network
       (tm_network_links_with_epc_df links_taz epc)"

text \<open>The joined columns \<open>TAZ1454\<close> and \<open>taz_epc\<close> of a network row; null when unmatched.\<close>

definition joined_TAZ1454 :: "joined_link \<Rightarrow> int option" where
  "joined_TAZ1454 j = map_option (\<lambda>m. TAZ1454 (fst m)) (snd j)"

definition joined_taz_epc :: "joined_link \<Rightarrow> int option" where
  "joined_taz_epc j = (case snd j of None \<Rightarrow> None | Some m \<Rightarrow> map_option taz_epc (snd m))"

subsection \<open>Lines 119-147: VMT and VHT of a link\<close>

definition Total_VMT :: "link \<Rightarrow> real" where
  "Total_VMT l = (volEA_tot l + volAM_tot l + volMD_tot l + volPM_tot l + volEV_tot l) * distance l"

definition EA_VMT :: "link \<Rightarrow> real" where "EA_VMT l = volEA_tot l * distance l"
definition AM_VMT :: "link \<Rightarrow> real" where "AM_VMT l = volAM_tot l * distance l"
definition MD_VMT :: "link \<Rightarrow> real" where "MD_VMT l = volMD_tot l * distance l"
definition PM_VMT :: "link \<Rightarrow> real" where "PM_VMT l = volPM_tot l * distance l"
definition EV_VMT :: "link \<Rightarrow> real" where "EV_VMT l = volEV_tot l * distance l"

definition VHT :: "link \<Rightarrow> real" where
  "VHT l = (ctimEA l * volEA_tot l + ctimAM l * volAM_tot l + ctimMD l * volMD_tot l +
            ctimPM l * volPM_tot l + ctimEV l * volEV_tot l) / 60"

subsection \<open>Lines 150-167: facility type groupings\<close>

text \<open>
  The left merge with \<open>ft_to_grouping_key_df\<close>: the two labels of a facility type; null
  for types 9 and 10 (listed with \<open>None\<close>) and for a type the table does not list.
\<close>

definition ft_to_grouping_key :: "int \<Rightarrow> (string \<times> string) option" where
  "ft_to_grouping_key t =
     (if t = 1 then Some (''Freeway'', ''Freeway'')
      else if t = 2 then Some (''Freeway'', ''Freeway'')
      else if t = 3 then Some (''Non-Freeway'', ''Expressway'')
      else if t = 4 then Some (''Non-Freeway'', ''Collector'')
      else if t = 5 then Some (''Freeway'', ''Freeway'')
      else if t = 6 then Some (''Non-Freeway'', ''Other'')
      else if t = 7 then Some (''Non-Freeway'', ''Arterial'')
      else if t = 8 then Some (''Freeway'', ''Freeway'')
      else None)"

subsection \<open>Lines 169-187: recodes\<close>

definition EPC_Non_EPC :: "joined_link \<Rightarrow> string" where
  "EPC_Non_EPC j =
     (let v = ''Non-EPCs'';
          v = (if joined_taz_epc j = Some 1 then ''EPCs'' else v)
      in v)"

definition Tolled_Non_tolled :: "joined_link \<Rightarrow> string" where
  "Tolled_Non_tolled j =
     (let v = ''Non-tolled facilities'';
          v = (case tollclass (fst j) of None \<Rightarrow> v
               | Some t \<Rightarrow> if t > 700000 then ''Tolled facilities'' else v)
      in v)"

text \<open>A comparison with a null \<open>TAZ1454\<close> is false, so the row keeps what it has.\<close>

definition taz_between :: "int \<Rightarrow> int \<Rightarrow> joined_link \<Rightarrow> bool" where
  "taz_between lo hi j = (case joined_TAZ1454 j of None \<Rightarrow> False | Some z \<Rightarrow> z > lo \<and> z < hi)"

definition County :: "joined_link \<Rightarrow> string" where
  "County j =
     (let v = ''San Francisco'';
          v = (if taz_between 190 347 j then ''San Mateo'' else v);
          v = (if taz_between 346 715 j then ''Santa Clara'' else v);
          v = (if taz_between 714 1040 j then ''Alameda'' else v);
          v = (if taz_between 1039 1211 j then ''Contra Costa'' else v);
          v = (if taz_between 1210 1291 j then ''Solano'' else v);
          v = (if taz_between 1290 1318 j then ''Napa'' else v);
          v = (if taz_between 1317 1404 j then ''Sonoma'' else v);
          v = (if taz_between 1403 1455 j then ''Marin'' else v)
      in v)"

subsection \<open>Lines 189-195: the totals by facility type, EPC, tolling and county\<close>

type_synonym ft_key = "string \<times> string \<times> string \<times> string \<times> string"

definition ft_groupby_key :: "joined_link \<Rightarrow> ft_key option" where
  "ft_groupby_key j =
     (case ft_to_grouping_key (ft (fst j)) of
        None \<Rightarrow> None
      | Some (fwy, ftd) \<Rightarrow> Some (fwy, ftd, EPC_Non_EPC j, Tolled_Non_tolled j, County j))"

definition ft_value_columns :: "(joined_link \<Rightarrow> real) list" where
  "ft_value_columns =
     [\<lambda>j. Total_VMT (fst j), \<lambda>j. VHT (fst j), \<lambda>j. EA_VMT (fst j), \<lambda>j. AM_VMT (fst j),
      \<lambda>j. MD_VMT (fst j), \<lambda>j. PM_VMT (fst j), \<lambda>j. EV_VMT (fst j)]"

definition ft_metrics_df :: "link list \<Rightarrow> link_taz list \<Rightarrow> taz_epc_row list \<Rightarrow> (ft_key \<times> real list) list" where
  "ft_metrics_df network links_taz epc =
     groupby_sum ft_groupby_key ft_value_columns (join_network network links_taz epc)"

subsection \<open>Lines 198-207: long form\<close>

definition auto_times_frame :: "((string \<times> string) \<times> real \<times> real) list \<Rightarrow> frame" where
  "auto_times_frame rows =
     \<lparr>columns = [''Household/Non-Household'', ''Income Level/Travel Mode'', ''VMT'', ''VHT''],
      data = map (\<lambda>((hh, lvl), vmt, vht). [Str hh, Str lvl, Num vmt, Num vht]) rows\<rparr>"

definition ft_metrics_frame :: "(ft_key \<times> real list) list \<Rightarrow> frame" where
  "ft_metrics_frame rows =
     \<lparr>columns = [''Freeway/Non-Freeway'', ''Facility Type Definition'', ''EPC/Non-EPC'',
                 ''Tolled/Non-tolled Facilities'', ''County'',
                 ''Total VMT'', ''VHT'', ''EA VMT'', ''AM VMT'', ''MD VMT'', ''PM VMT'', ''EV VMT''],
      data = map (\<lambda>((fwy, ftd, e, t, c), totals). [Str fwy, Str ftd, Str e, Str t, Str c] @ map Num totals) rows\<rparr>"

definition safe2_id_vars :: "string list" where
  "safe2_id_vars =
     [''Freeway/Non-Freeway'', ''Facility Type Definition'', ''EPC/Non-EPC'',
      ''Tolled/Non-tolled Facilities'', ''County'', ''Household/Non-Household'',
      ''Income Level/Travel Mode'']"

definition calculate_Safe2_change_in_vmt ::
  "taz_epc_row list \<Rightarrow> string \<Rightarrow> safe2_inputs \<Rightarrow> error + frame" where
  "calculate_Safe2_change_in_vmt NGFS_EPC_TAZ_DF tm_run_id inp =
     (let auto_times = auto_times_frame (summarize_auto_times (auto_times_df inp));
          ft_metrics = ft_metrics_frame
            (ft_metrics_df (loaded_network_df inp) (tm_network_links_taz_df inp) NGFS_EPC_TAZ_DF)
      in case melt safe2_id_vars ''Metric Description'' (concat_frames auto_times ft_metrics) of
           Inl e \<Rightarrow> Inl e
         | Inr metrics_df \<Rightarrow>
             Inr (assign_const ''Year'' (Str (take 4 tm_run_id))
                  (assign_const ''Intermediate/Final'' (Str ''final'')
                  (assign_const ''Metric ID'' (Str ''Safe 2'')
                  (assign_const ''Model Run ID'' (Str tm_run_id) metrics_df)))))"

subsection \<open>The script's batch loop (lines 248-266)\<close>

text \<open>\<open>read_csvs\<close> stands for the three \<open>pd.read_csv\<close> calls of the function; they may raise.\<close>

definition safe2_out_filename :: "string \<Rightarrow> string \<Rightarrow> string" where
  "safe2_out_filename cwd tm_run_id = os_path_join cwd (''Safe2_change_in_vmt_'' @ tm_run_id @ ''.csv'')"

definition safe2_main ::
  "bool \<Rightarrow> taz_epc_row list \<Rightarrow> (string \<Rightarrow> error + safe2_inputs) \<Rightarrow> string \<Rightarrow> string list \<Rightarrow>
   frame world \<Rightarrow> (error \<times> frame world) + frame world" where
  "safe2_main skip_if_exists NGFS_EPC_TAZ_DF read_csvs cwd current_runs_list w =
     run_batch skip_if_exists (safe2_out_filename cwd)
       (\<lambda>tm_run_id. and_then (read_csvs tm_run_id) (calculate_Safe2_change_in_vmt NGFS_EPC_TAZ_DF tm_run_id))
       current_runs_list w"

section \<open>VMT by facility type in calculate_top_level_metrics (ngfs_metrics.py, lines 373-388)\<close>

definition total_vmt :: "link \<Rightarrow> real" where
  "total_vmt l = distance l * (volEA_tot l + volAM_tot l + volMD_tot l + volPM_tot l + volEV_tot l)"

definition total_vht :: "link \<Rightarrow> real" where
  "total_vht l = (ctimEA l * volEA_tot l + ctimAM l * volAM_tot l + ctimMD l * volMD_tot l +
                  ctimPM l * volPM_tot l + ctimEV l * volEV_tot l) / 60"

definition top_level_key :: "string \<Rightarrow> string \<Rightarrow> string \<Rightarrow> string \<Rightarrow> string \<Rightarrow> string \<Rightarrow> mkey" where
  "top_level_key g1 tm_run_id mid k desc yr =
     \<lparr>grouping1 = g1, grouping2 = '' '', grouping3 = '' '', modelrun_id = tm_run_id,
      metric_id = mid, intermediate_final = ''top_level'', key = k, metric_desc = desc, year = yr\<rparr>"

definition facility_vmt_metrics :: "string \<Rightarrow> string \<Rightarrow> link list \<Rightarrow> metrics_dict \<Rightarrow> metrics_dict" where
  "facility_vmt_metrics tm_run_id yr tm_loaded_network_df metrics_dict =
     (let vmt_df = tm_loaded_network_df;
          fwy_vmt_df = filter (\<lambda>l. ft l = 1 \<or> ft l = 2 \<or> ft l = 8) vmt_df;
          arterial_vmt_df = filter (\<lambda>l. ft l = 7) vmt_df;
          expressway_vmt_df = filter (\<lambda>l. ft l = 3) vmt_df;
          collector_vmt_df = filter (\<lambda>l. ft l = 4) vmt_df;
          put = (\<lambda>g1 k desc df col d.
                   AList.update (top_level_key g1 tm_run_id ''overall'' k desc yr)
                     (Fin (sum_list (map col df))) d)
      in put ''Non-Freeway'' ''VHT'' ''Collector'' collector_vmt_df total_vht
        (put ''Non-Freeway'' ''VHT'' ''Expressway'' expressway_vmt_df total_vht
        (put ''Non-Freeway'' ''VHT'' ''Arterial'' arterial_vmt_df total_vht
        (put ''Freeway'' ''VHT'' ''Freeway'' fwy_vmt_df total_vht
        (put ''Non-Freeway'' ''VMT'' ''Collector'' collector_vmt_df total_vmt
        (put ''Non-Freeway'' ''VMT'' ''Expressway'' expressway_vmt_df total_vmt
        (put ''Non-Freeway'' ''VMT'' ''Arterial'' arterial_vmt_df total_vmt
        (put ''Freeway'' ''VMT'' ''Freeway'' fwy_vmt_df total_vmt metrics_dict))))))))"

section \<open>The trip roll-up of trips_commute_mode_pkop (ngfs_metrics.py, lines 207-223)\<close>

record trip_row =
  trip_mode :: int
  tour_purpose :: string
  timeCode :: string
  freq :: real

definition MODES_TRANSIT :: "int list" where
  "MODES_TRANSIT = [9, 10, 11, 12, 13, 14, 15, 16, 17, 18]"

definition MODES_TAXI_TNC :: "int list" where
  "MODES_TAXI_TNC = [19, 20, 21]"

definition MODES_PRIVATE_AUTO :: "int list" where
  "MODES_PRIVATE_AUTO = [1, 2] @ [3, 4, 5, 6]"

definition PURPOSES_COMMUTE :: "string list" where
  "PURPOSES_COMMUTE = [''work_low'', ''work_med'', ''work_high'', ''work_very high'']"

definition TIME_PERIODS_PEAK :: "string list" where
  "TIME_PERIODS_PEAK = [''AM'', ''PM'']"

definition agg_trip_mode :: "trip_row \<Rightarrow> string" where
  "agg_trip_mode r =
     (let v = ''active'';
          v = (if trip_mode r \<in> set MODES_TRANSIT then ''transit'' else v);
          v = (if trip_mode r \<in> set MODES_PRIVATE_AUTO then ''auto'' else v);
          v = (if trip_mode r \<in> set MODES_TAXI_TNC then ''other'' else v)
      in v)"

definition commute_non :: "trip_row \<Rightarrow> string" where
  "commute_non r = (if tour_purpose r \<in> set PURPOSES_COMMUTE then ''commute'' else ''noncommute'')"

definition peak_non :: "trip_row \<Rightarrow> string" where
  "peak_non r = (if timeCode r \<in> set TIME_PERIODS_PEAK then ''peak'' else ''offpeak'')"

text \<open>Line 222; the one summed column, \<open>freq\<close>, is then renamed \<open>trips\<close>.\<close>

definition trips_rollup :: "trip_row list \<Rightarrow> ((string \<times> string \<times> string) \<times> real list) list" where
  "trips_rollup tm_trips_df =
     groupby_sum (\<lambda>r. Some (agg_trip_mode r, commute_non r, peak_non r)) [freq] tm_trips_df"

section \<open>Example inputs\<close>

text \<open>
  Calculators that produce one row each (the dictionary ones add nothing), except that
  \<open>Safe 2\<close> finds no input file for the run named \<open>bad\<close>.
\<close>

definition example_row :: "string \<Rightarrow> string \<Rightarrow> metric_row" where
  "example_row tm_run_id mid =
     (\<lparr>grouping1 = '' '', grouping2 = '' '', grouping3 = '' '', modelrun_id = tm_run_id,
       metric_id = mid, intermediate_final = ''final'', key = ''k'', metric_desc = ''m'',
       year = take 4 tm_run_id\<rparr>, Fin 1)"

definition example_calculators :: "string \<Rightarrow> unit calculators" where
  "example_calculators bad =
     \<lparr>load_inputs = (\<lambda>r. Inr ()),
      c_Affordable1_transportation_costs = (\<lambda>r. Inr [example_row r ''Affordable 1'']),
      c_Affordable2_ratio_time_cost = (\<lambda>r i d. Inr d),
      c_Efficient1_ratio_travel_time = (\<lambda>r. Inr []),
      c_Efficient2_commute_mode_share = (\<lambda>r. Inr []),
      c_Reliable1_change_travel_time = (\<lambda>r i d. Inr d),
      c_Reliable2_ratio_peak_nonpeak = (\<lambda>r i d. Inr d),
      c_Safe1_fatalities_freeways_nonfreeways = (\<lambda>r i d. Inr d),
      c_Safe2_change_in_vmt = (\<lambda>r. if r = bad then Inl FileNotFoundError else Inr []),
      c_top_level_metrics = (\<lambda>r i. Inr [])\<rparr>"

subsection \<open>Example dictionaries\<close>

text \<open>
  One corridor metric of run \<open>2035_run\<close> with value \<open>vr\<close>, and the same metric of the
  base run \<open>2035_base\<close> with value \<open>vb\<close>; \<open>delta_scenario\<close> is the case of two finite
  values.
\<close>

definition delta_values :: "fval \<Rightarrow> fval \<Rightarrow> metrics_dict" where
  "delta_values vr vb =
    [(\<lparr>grouping1 = ''X'', grouping2 = ''Travel Time'', grouping3 = '' '',
       modelrun_id = ''2035_run'', metric_id = ''Reliable 1'', intermediate_final = ''extra'',
       key = ''By Corridor'', metric_desc = ''travel_time_X_AM'', year = ''2035''\<rparr>, vr),
     (\<lparr>grouping1 = ''X'', grouping2 = ''Travel Time'', grouping3 = '' '',
       modelrun_id = ''2035_base'', metric_id = ''Reliable 1'', intermediate_final = ''extra'',
       key = ''By Corridor'', metric_desc = ''travel_time_X_AM'', year = ''2035''\<rparr>, vb)]"

definition delta_scenario :: "real \<Rightarrow> real \<Rightarrow> metrics_dict" where
  "delta_scenario c b = delta_values (Fin c) (Fin b)"

text \<open>A metric of the run that the base run does not have.\<close>

definition unmatched_row :: "mkey \<times> fval" where
  "unmatched_row =
     (\<lparr>grouping1 = ''Y'', grouping2 = ''Travel Time'', grouping3 = '' '',
       modelrun_id = ''2035_run'', metric_id = ''Reliable 1'', intermediate_final = ''extra'',
       key = ''By Corridor'', metric_desc = ''travel_time_Y_AM'', year = ''2035''\<rparr>, Fin 9)"

text \<open>That metric first, then the metric that both runs have, with values 120 and 100.\<close>

definition unmatched_first_scenario :: metrics_dict where
  "unmatched_first_scenario = unmatched_row # delta_values (Fin 120) (Fin 100)"

text \<open>The metric that both runs have, with base value 0, then the unmatched one.\<close>

definition zero_then_unmatched_scenario :: metrics_dict where
  "zero_then_unmatched_scenario = delta_values (Fin 120) (Fin 0) @ [unmatched_row]"

text \<open>
  The metric that both runs have, with values 7 and 2, followed by a metric of the run
  that the base run does not have.
\<close>

definition unmatched_scenario :: metrics_dict where
  "unmatched_scenario = delta_scenario 7 2 @
    [(\<lparr>grouping1 = ''Y'', grouping2 = ''Travel Time'', grouping3 = '' '',
       modelrun_id = ''2035_run'', metric_id = ''Reliable 1'', intermediate_final = ''extra'',
       key = ''By Corridor'', metric_desc = ''travel_time_Y_AM'', year = ''2035''\<rparr>, Fin 9)]"

text \<open>
  A freeway link (total volume 100, distance 2), an arterial link (total volume 50,
  distance 1) and a toll plaza; a link-to-TAZ table that lists the freeway link twice,
  and an EPC crosswalk.
\<close>

definition scenario_freeway_link :: link where
  "scenario_freeway_link =
     \<lparr>col_a = 1, col_b = 2, ft = 1, distance = 2,
      volEA_tot = 10, volAM_tot = 30, volMD_tot = 20, volPM_tot = 30, volEV_tot = 10,
      ctimEA = 3, ctimAM = 6, ctimMD = 3, ctimPM = 6, ctimEV = 3, tollclass = Some 0\<rparr>"

definition scenario_arterial_link :: link where
  "scenario_arterial_link =
     \<lparr>col_a = 2, col_b = 3, ft = 7, distance = 1,
      volEA_tot = 5, volAM_tot = 15, volMD_tot = 10, volPM_tot = 15, volEV_tot = 5,
      ctimEA = 6, ctimAM = 6, ctimMD = 6, ctimPM = 6, ctimEV = 6, tollclass = None\<rparr>"

definition toll_plaza_link :: link where
  "toll_plaza_link =
     \<lparr>col_a = 3, col_b = 4, ft = 10, distance = 1,
      volEA_tot = 1, volAM_tot = 1, volMD_tot = 1, volPM_tot = 1, volEV_tot = 1,
      ctimEA = 6, ctimAM = 6, ctimMD = 6, ctimPM = 6, ctimEV = 6, tollclass = Some 700001\<rparr>"

definition scenario_links_taz :: "link_taz list" where
  "scenario_links_taz =
     [\<lparr>lt_A = 1, lt_B = 2, TAZ1454 = 100, linktaz_share = 0.3\<rparr>,
      \<lparr>lt_A = 1, lt_B = 2, TAZ1454 = 200, linktaz_share = 0.7\<rparr>]"

definition scenario_epc :: "taz_epc_row list" where
  "scenario_epc = [\<lparr>epc_TAZ1454 = 200, taz_epc = 1\<rparr>, \<lparr>epc_TAZ1454 = 100, taz_epc = 0\<rparr>]"

text \<open>
  The frame melted at line 200 when the household summary has one row and the network
  table none.
\<close>

definition example_wide_frame :: frame where
  "example_wide_frame =
     concat_frames (auto_times_frame [((''Household'', ''inc1''), 10, 2)]) (ft_metrics_frame [])"

text \<open>Inputs of one run for the Safe 2 script, and a reader that finds no files for one run.\<close>

definition example_safe2_inputs :: safe2_inputs where
  "example_safe2_inputs =
     \<lparr>auto_times_df = [\<lparr>Income = Some ''inc1'', Mode = ''da'', Vehicle_Miles = 10, Vehicle_Minutes = 120\<rparr>,
                       \<lparr>Income = None, Mode = ''truck'', Vehicle_Miles = 7, Vehicle_Minutes = 60\<rparr>],
      loaded_network_df = [scenario_freeway_link, toll_plaza_link, scenario_arterial_link],
      tm_network_links_taz_df = scenario_links_taz\<rparr>"

definition example_read_csvs :: "string \<Rightarrow> string \<Rightarrow> error + safe2_inputs" where
  "example_read_csvs bad tm_run_id =
     (if tm_run_id = bad then Inl FileNotFoundError else Inr example_safe2_inputs)"

section \<open>Properties of calculate_change_between_run_and_base\<close>


lemma split_aux_nonempty: "split_aux sep acc s \<noteq> []"
  by (induction sep acc s rule: split_aux.induct) auto

lemma change_neq_pct [simp]:
  "change_key k r mid m yr \<noteq> pct_change_key k' r' mid' m' yr'"
  "pct_change_key k' r' mid' m' yr' \<noteq> change_key k r mid m yr"
  by (simp_all add: change_key_def pct_change_key_def)

lemma change_key_eq [simp]:
  "change_key k r mid m yr = change_key k' r' mid' m' yr' \<longleftrightarrow>
     k = k' \<and> r = r' \<and> mid = mid' \<and> m = m' \<and> yr = yr'"
  by (auto simp add: change_key_def)

lemma pct_change_key_eq [simp]:
  "pct_change_key k r mid m yr = pct_change_key k' r' mid' m' yr' \<longleftrightarrow>
     k = k' \<and> r = r' \<and> mid = mid' \<and> m = m' \<and> yr = yr'"
  by (auto simp add: pct_change_key_def)

lemma state_after_simps [simp]:
  "state_after (Inl (e, s)) = s" "state_after (Inr s) = s"
  by (simp_all add: state_after_def)

lemma change_loop_keeps_after:
  assumes "iloc0_value run m df = Inr vr" and "iloc0_value base m df = Inr vb"
  shows "(map_of d (change_key k run mid m yr) = Some (fsub vr vb) \<longrightarrow>
            map_of (state_after (change_loop run base yr mid df c ms d)) (change_key k run mid m yr)
              = Some (fsub vr vb)) \<and>
         (map_of d (pct_change_key k run mid m yr) = Some (fdiv (fsub vr vb) vb) \<longrightarrow>
            map_of (state_after (change_loop run base yr mid df c ms d)) (pct_change_key k run mid m yr)
              = Some (fdiv (fsub vr vb) vb))"
proof (induction ms arbitrary: c d)
  case Nil
  then show ?case by simp
next
  case (Cons a ms)
  show ?case
  proof (cases "iloc0_value run a df")
    case (Inl e)
    then show ?thesis by (simp add: Let_def)
  next
    case (Inr va)
    show ?thesis
    proof (cases "iloc0_value base a df")
      case (Inl e)
      with Inr show ?thesis by (simp add: Let_def)
    next
      case vb0: (Inr vb0)
      let ?k = "next_key c a"
      let ?d1 = "AList.update (pct_change_key ?k run mid a yr) (fdiv (fsub va vb0) vb0)
               (AList.update (change_key ?k run mid a yr) (fsub va vb0) d)"
      have step: "change_loop run base yr mid df c (a # ms) d = change_loop run base yr mid df ?k ms ?d1"
        using Inr vb0 by (simp add: Let_def)
      have same: "a = m \<Longrightarrow> va = vr \<and> vb0 = vb"
        using Inr vb0 assms by simp
      have c1: "map_of d (change_key k run mid m yr) = Some (fsub vr vb) \<Longrightarrow>
            map_of ?d1 (change_key k run mid m yr) = Some (fsub vr vb)"
        using same by (auto simp add: update_conv')
      have c2: "map_of d (pct_change_key k run mid m yr) = Some (fdiv (fsub vr vb) vb) \<Longrightarrow>
            map_of ?d1 (pct_change_key k run mid m yr) = Some (fdiv (fsub vr vb) vb)"
        using same by (auto simp add: update_conv')
      from Cons.IH[where c = ?k and d = ?d1] c1 c2 show ?thesis by (simp only: step) blast
    qed
  qed
qed

lemma change_loop_entry_prefix:
  assumes "i < length ms"
      and "\<forall>m\<in>set (take (Suc i) ms). (\<exists>v. iloc0_value run m df = Inr v) \<and> (\<exists>v. iloc0_value base m df = Inr v)"
      and "iloc0_value run (ms ! i) df = Inr vr" and "iloc0_value base (ms ! i) df = Inr vb"
  shows "map_of (state_after (change_loop run base yr mid df c ms d))
           (change_key (foldl next_key c (take (Suc i) ms)) run mid (ms ! i) yr) = Some (fsub vr vb) \<and>
         map_of (state_after (change_loop run base yr mid df c ms d))
           (pct_change_key (foldl next_key c (take (Suc i) ms)) run mid (ms ! i) yr)
             = Some (fdiv (fsub vr vb) vb)"
  using assms
proof (induction ms arbitrary: c d i)
  case Nil
  then show ?case by simp
next
  case (Cons a ms)
  from Cons.prems(2) obtain va vb0 where va: "iloc0_value run a df = Inr va"
    and vb0: "iloc0_value base a df = Inr vb0" by auto
  let ?k = "next_key c a"
  let ?d1 = "AList.update (pct_change_key ?k run mid a yr) (fdiv (fsub va vb0) vb0)
               (AList.update (change_key ?k run mid a yr) (fsub va vb0) d)"
  have step: "change_loop run base yr mid df c (a # ms) d = change_loop run base yr mid df ?k ms ?d1"
    using va vb0 by (simp add: Let_def)
  show ?case
  proof (cases i)
    case 0
    with Cons.prems va vb0 have e: "va = vr" "vb0 = vb" by simp_all
    have "map_of ?d1 (change_key ?k run mid a yr) = Some (fsub va vb0)"
         "map_of ?d1 (pct_change_key ?k run mid a yr) = Some (fdiv (fsub va vb0) vb0)"
      by (simp_all add: update_conv')
    with change_loop_keeps_after[where d = ?d1 and k = ?k and c = ?k and ms = ms and mid = mid and yr = yr, OF va vb0]
    show ?thesis using 0 e by (simp only: step) simp
  next
    case (Suc i')
    with Cons.prems have 1: "i' < length ms"
      and 2: "\<forall>m\<in>set (take (Suc i') ms). (\<exists>v. iloc0_value run m df = Inr v) \<and> (\<exists>v. iloc0_value base m df = Inr v)"
      and 3: "iloc0_value run (ms ! i') df = Inr vr" and 4: "iloc0_value base (ms ! i') df = Inr vb"
      by simp_all
    from Cons.IH[where c = ?k and d = ?d1, OF 1 2 3 4] show ?thesis using Suc by (simp only: step) simp
  qed
qed

lemma change_loop_returns_iff:
  "(\<exists>d'. change_loop run base yr mid df c ms d = Inr d') \<longleftrightarrow>
     (\<forall>m\<in>set ms. (\<exists>v. iloc0_value run m df = Inr v) \<and> (\<exists>v. iloc0_value base m df = Inr v))"
proof (induction ms arbitrary: c d)
  case Nil
  then show ?case by simp
next
  case (Cons a ms)
  show ?case
  proof (cases "iloc0_value run a df")
    case (Inl e)
    then show ?thesis by (simp add: Let_def)
  next
    case (Inr va)
    show ?thesis
    proof (cases "iloc0_value base a df")
      case (Inl e)
      with Inr show ?thesis by (simp add: Let_def)
    next
      case vb0: (Inr vb0)
      with Inr Cons.IH show ?thesis by (simp add: Let_def)
    qed
  qed
qed

lemma metrics_list_run_value:
  assumes "m \<in> set (metrics_list run mid df)"
  shows "\<exists>v. iloc0_value run m df = Inr v"
proof -
  from assms obtain r where "r \<in> set df" "modelrun_id (fst r) = run" "metric_desc (fst r) = m"
    by (auto simp add: metrics_list_def)
  then have "filter (\<lambda>r. modelrun_id (fst r) = run \<and> metric_desc (fst r) = m) df \<noteq> []"
    by (auto simp add: filter_empty_conv)
  then show ?thesis
    by (auto simp add: iloc0_value_def split: list.splits)
qed


lemma iloc0_value_error: "iloc0_value r m df = Inl e \<Longrightarrow> e = IndexError"
  by (auto simp add: iloc0_value_def split: list.splits)

lemma iloc0_value_absent:
  "iloc0_value r m df = Inl IndexError \<longleftrightarrow>
     \<not> (\<exists>x\<in>set df. modelrun_id (fst x) = r \<and> metric_desc (fst x) = m)"
proof -
  have "iloc0_value r m df = Inl IndexError \<longleftrightarrow>
        filter (\<lambda>x. modelrun_id (fst x) = r \<and> metric_desc (fst x) = m) df = []"
    by (simp add: iloc0_value_def split: list.splits)
  then show ?thesis by (simp add: filter_empty_conv)
qed

lemma change_loop_fails:
  assumes "m \<in> set ms" and "iloc0_value base m df = Inl IndexError"
  shows "\<exists>d'. change_loop run base yr mid df c ms d = Inl (IndexError, d') \<and>
           (\<forall>k. map_of d' (change_key k run mid m yr) = map_of d (change_key k run mid m yr) \<and>
                map_of d' (pct_change_key k run mid m yr) = map_of d (pct_change_key k run mid m yr))"
  using assms
proof (induction ms arbitrary: c d)
  case Nil
  then show ?case by simp
next
  case (Cons a ms)
  show ?case
  proof (cases "iloc0_value run a df")
    case (Inl e)
    then show ?thesis using iloc0_value_error[OF Inl] by (simp add: Let_def)
  next
    case (Inr va)
    show ?thesis
    proof (cases "iloc0_value base a df")
      case (Inl e)
      then show ?thesis using Inr iloc0_value_error[OF Inl] by (simp add: Let_def)
    next
      case vb: (Inr vb0)
      with Cons.prems have ne: "a \<noteq> m" by auto
      with Cons.prems have mem: "m \<in> set ms" by simp
      let ?k = "next_key c a"
      let ?d1 = "AList.update (pct_change_key ?k run mid a yr) (fdiv (fsub va vb0) vb0)
               (AList.update (change_key ?k run mid a yr) (fsub va vb0) d)"
      from Cons.IH[OF mem Cons.prems(2), of ?k ?d1] obtain d' where
        f: "change_loop run base yr mid df ?k ms ?d1 = Inl (IndexError, d')" and
        u: "\<forall>k. map_of d' (change_key k run mid m yr) = map_of ?d1 (change_key k run mid m yr) \<and>
                map_of d' (pct_change_key k run mid m yr) = map_of ?d1 (pct_change_key k run mid m yr)"
        by blast
      have "change_loop run base yr mid df c (a # ms) d = Inl (IndexError, d')"
        using Inr vb f by (simp add: Let_def)
      moreover have "\<forall>k. map_of ?d1 (change_key k run mid m yr) = map_of d (change_key k run mid m yr) \<and>
                map_of ?d1 (pct_change_key k run mid m yr) = map_of d (pct_change_key k run mid m yr)"
        using ne by (simp add: update_conv')
      ultimately show ?thesis using u by simp
    qed
  qed
qed

lemma calculate_change_returns_iff:
  assumes "d \<noteq> []"
  shows "(\<exists>d'. calculate_change_between_run_and_base tm_run_id base yr mid d = Inr d') \<longleftrightarrow>
           (\<forall>m\<in>set (metrics_list tm_run_id mid d). \<exists>v. iloc0_value base m d = Inr v)"
  using assms metrics_list_run_value[of _ tm_run_id mid d]
  by (simp add: calculate_change_between_run_and_base_def change_loop_returns_iff)

lemma calculate_change_raises_IndexError:
  assumes "d \<noteq> []" and "calculate_change_between_run_and_base tm_run_id base yr mid d = Inl (e, d')"
  shows "e = IndexError"
proof -
  have "\<And>c ms d0. change_loop tm_run_id base yr mid d c ms d0 = Inl (e, d') \<Longrightarrow> e = IndexError"
  proof -
    fix c ms d0
    show "change_loop tm_run_id base yr mid d c ms d0 = Inl (e, d') \<Longrightarrow> e = IndexError"
      by (induction ms arbitrary: c d0)
         (auto simp add: Let_def split: sum.splits dest: iloc0_value_error)
  qed
  with assms show ?thesis by (simp add: calculate_change_between_run_and_base_def)
qed

lemma calculate_change_entry:
  assumes i: "i < length (metrics_list tm_run_id mid d)"
      and before: "\<forall>m\<in>set (take i (metrics_list tm_run_id mid d)). \<exists>v. iloc0_value base m d = Inr v"
      and cur: "iloc0_value tm_run_id (metrics_list tm_run_id mid d ! i) d = Inr val_run"
      and bas: "iloc0_value base (metrics_list tm_run_id mid d ! i) d = Inr val_base"
  shows "map_of (state_after (calculate_change_between_run_and_base tm_run_id base yr mid d))
           (change_key (foldl next_key ''Change'' (take (Suc i) (metrics_list tm_run_id mid d)))
              tm_run_id mid (metrics_list tm_run_id mid d ! i) yr)
           = Some (fsub val_run val_base) \<and>
         map_of (state_after (calculate_change_between_run_and_base tm_run_id base yr mid d))
           (pct_change_key (foldl next_key ''Change'' (take (Suc i) (metrics_list tm_run_id mid d)))
              tm_run_id mid (metrics_list tm_run_id mid d ! i) yr)
           = Some (fdiv (fsub val_run val_base) val_base)"
proof -
  let ?ml = "metrics_list tm_run_id mid d"
  from i have ne: "d \<noteq> []" by (auto simp add: metrics_list_def)
  have tk: "take (Suc i) ?ml = take i ?ml @ [?ml ! i]"
    using i by (simp add: take_Suc_conv_app_nth)
  have all: "\<forall>m\<in>set (take (Suc i) ?ml).
      (\<exists>v. iloc0_value tm_run_id m d = Inr v) \<and> (\<exists>v. iloc0_value base m d = Inr v)"
  proof
    fix m assume m: "m \<in> set (take (Suc i) ?ml)"
    then have "m \<in> set ?ml" by (rule in_set_takeD)
    then have r: "\<exists>v. iloc0_value tm_run_id m d = Inr v" by (rule metrics_list_run_value)
    from m have "m \<in> set (take i ?ml) \<or> m = ?ml ! i" by (auto simp add: tk)
    with before bas have "\<exists>v. iloc0_value base m d = Inr v" by auto
    with r show "(\<exists>v. iloc0_value tm_run_id m d = Inr v) \<and> (\<exists>v. iloc0_value base m d = Inr v)" ..
  qed
  from change_loop_entry_prefix[where c = "''Change''" and d = d and yr = yr and mid = mid, OF i all cur bas]
  show ?thesis
    by (simp only: calculate_change_between_run_and_base_def ne if_False)
qed


lemma iloc0_value_present:
  "(\<exists>v. iloc0_value r m df = Inr v) \<longleftrightarrow>
     (\<exists>x\<in>set df. modelrun_id (fst x) = r \<and> metric_desc (fst x) = m)"
proof -
  have "(\<exists>v. iloc0_value r m df = Inr v) \<longleftrightarrow>
        filter (\<lambda>x. modelrun_id (fst x) = r \<and> metric_desc (fst x) = m) df \<noteq> []"
    by (simp add: iloc0_value_def split: list.splits)
  then show ?thesis by (simp add: filter_empty_conv)
qed

lemma next_key_scenario: "next_key ''Change'' ''travel_time_X_AM'' = ''X''"
  by (simp add: next_key_def split_def)

lemma metrics_list_scenario:
  "metrics_list ''2035_run'' ''Reliable 1'' (delta_values vr vb) = [''travel_time_X_AM'']"
  by (simp add: metrics_list_def delta_values_def)

lemma iloc0_value_scenario:
  "iloc0_value ''2035_run'' ''travel_time_X_AM'' (delta_values vr vb) = Inr vr"
  "iloc0_value ''2035_base'' ''travel_time_X_AM'' (delta_values vr vb) = Inr vb"
  by (simp_all add: iloc0_value_def delta_values_def)

lemma metrics_list_unmatched_first:
  "metrics_list ''2035_run'' ''Reliable 1'' unmatched_first_scenario
     = [''travel_time_Y_AM'', ''travel_time_X_AM'']"
  by (simp add: metrics_list_def unmatched_first_scenario_def unmatched_row_def delta_values_def)

lemma metrics_list_unmatched:
  "metrics_list ''2035_run'' ''Reliable 1'' unmatched_scenario
     = [''travel_time_X_AM'', ''travel_time_Y_AM'']"
  by (simp add: metrics_list_def unmatched_scenario_def delta_scenario_def delta_values_def)

lemma metrics_list_zero_then_unmatched:
  "metrics_list ''2035_run'' ''Reliable 1'' zero_then_unmatched_scenario
     = [''travel_time_X_AM'', ''travel_time_Y_AM'']"
  by (simp add: metrics_list_def zero_then_unmatched_scenario_def unmatched_row_def delta_values_def)

text \<open>
  C3 (as stated, refuted).  The metric \<open>travel_time_X_AM\<close> is in the run's list and has a
  row in both runs, with values 120 and 100, but the list starts with a metric that the
  base run lacks: the function raises at that one and leaves the dictionary as it was,
  with no delta for \<open>travel_time_X_AM\<close>.
\<close>

theorem delta_not_emitted_counterexample:
  "''travel_time_X_AM'' \<in> set (metrics_list ''2035_run'' ''Reliable 1'' unmatched_first_scenario) \<and>
   iloc0_value ''2035_run'' ''travel_time_X_AM'' unmatched_first_scenario = Inr (Fin 120) \<and>
   iloc0_value ''2035_base'' ''travel_time_X_AM'' unmatched_first_scenario = Inr (Fin 100) \<and>
   calculate_change_between_run_and_base ''2035_run'' ''2035_base'' ''2035'' ''Reliable 1''
       unmatched_first_scenario
     = Inl (IndexError, unmatched_first_scenario) \<and>
   [r \<leftarrow> unmatched_first_scenario. metric_desc (fst r) = ''change_in_travel_time_X_AM'' \<or>
        metric_desc (fst r) = ''pct_change_in_travel_time_X_AM''] = []"
  unfolding calculate_change_between_run_and_base_def metrics_list_unmatched_first
  by (simp add: iloc0_value_def unmatched_first_scenario_def unmatched_row_def delta_values_def
      Let_def)

text \<open>
  C3 (amended).  Take the metric at position \<open>i\<close> of the run's list, with the run's
  value \<open>val_run\<close> and the base value \<open>val_base\<close>, and suppose every metric before it in
  the list has a row of the base run.  Then the dictionary the function leaves behind,
  whether it returns or raises at a later metric, holds under \<open>change_in_<metric>\<close> the
  run's value minus the base value and under \<open>pct_change_in_<metric>\<close> that difference
  divided by the base value.  The function returns exactly when every metric of the list
  has a row of the base run.  For run value 120 and base value 100 alone it returns the
  dictionary with the two entries 20 and 0.20 appended.
\<close>

theorem delta_current_minus_base:
  assumes "i < length (metrics_list tm_run_id mid d)"
      and "\<forall>m\<in>set (take i (metrics_list tm_run_id mid d)).
             \<exists>r\<in>set d. modelrun_id (fst r) = base \<and> metric_desc (fst r) = m"
      and "iloc0_value tm_run_id (metrics_list tm_run_id mid d ! i) d = Inr val_run"
      and "iloc0_value base (metrics_list tm_run_id mid d ! i) d = Inr val_base"
  shows "map_of (state_after (calculate_change_between_run_and_base tm_run_id base yr mid d))
           (change_key (foldl next_key ''Change'' (take (Suc i) (metrics_list tm_run_id mid d)))
              tm_run_id mid (metrics_list tm_run_id mid d ! i) yr)
           = Some (fsub val_run val_base) \<and>
         map_of (state_after (calculate_change_between_run_and_base tm_run_id base yr mid d))
           (pct_change_key (foldl next_key ''Change'' (take (Suc i) (metrics_list tm_run_id mid d)))
              tm_run_id mid (metrics_list tm_run_id mid d ! i) yr)
           = Some (fdiv (fsub val_run val_base) val_base) \<and>
         ((\<exists>d'. calculate_change_between_run_and_base tm_run_id base yr mid d = Inr d') \<longleftrightarrow>
            (\<forall>m\<in>set (metrics_list tm_run_id mid d).
               \<exists>r\<in>set d. modelrun_id (fst r) = base \<and> metric_desc (fst r) = m)) \<and>
         fsub (Fin 120) (Fin 100) = Fin 20 \<and> fdiv (fsub (Fin 120) (Fin 100)) (Fin 100) = Fin 0.20 \<and>
         calculate_change_between_run_and_base ''2035_run'' ''2035_base'' ''2035'' ''Reliable 1''
             (delta_scenario 120 100)
           = Inr (delta_scenario 120 100 @
               [(change_key ''X'' ''2035_run'' ''Reliable 1'' ''travel_time_X_AM'' ''2035'', Fin 20),
                (pct_change_key ''X'' ''2035_run'' ''Reliable 1'' ''travel_time_X_AM'' ''2035'', Fin 0.20)])"
proof -
  have before: "\<forall>m\<in>set (take i (metrics_list tm_run_id mid d)). \<exists>v. iloc0_value base m d = Inr v"
    using assms(2) by (simp add: iloc0_value_present)
  from assms(1) have ne: "d \<noteq> []" by (auto simp add: metrics_list_def)
  have ret: "(\<exists>d'. calculate_change_between_run_and_base tm_run_id base yr mid d = Inr d') \<longleftrightarrow>
            (\<forall>m\<in>set (metrics_list tm_run_id mid d).
               \<exists>r\<in>set d. modelrun_id (fst r) = base \<and> metric_desc (fst r) = m)"
    using calculate_change_returns_iff[OF ne, of tm_run_id base yr mid]
    by (simp add: iloc0_value_present)
  have sc: "calculate_change_between_run_and_base ''2035_run'' ''2035_base'' ''2035'' ''Reliable 1''
             (delta_scenario 120 100)
           = Inr (delta_scenario 120 100 @
               [(change_key ''X'' ''2035_run'' ''Reliable 1'' ''travel_time_X_AM'' ''2035'', Fin 20),
                (pct_change_key ''X'' ''2035_run'' ''Reliable 1'' ''travel_time_X_AM'' ''2035'', Fin 0.20)])"
    unfolding calculate_change_between_run_and_base_def delta_scenario_def metrics_list_scenario
    by (simp add: next_key_scenario iloc0_value_def delta_values_def change_key_def
        pct_change_key_def Let_def)
  have ar: "fsub (Fin 120) (Fin 100) = Fin 20 \<and> fdiv (fsub (Fin 120) (Fin 100)) (Fin 100) = Fin 0.20"
    by simp
  note e = calculate_change_entry[OF assms(1) before assms(3,4), of yr]
  from conjunct1[OF e] conjunct2[OF e] ret conjunct1[OF ar] conjunct2[OF ar] sc
  show ?thesis by - (intro conjI, assumption+)
qed

theorem delta_current_minus_base_witness:
  "map_of (state_after (calculate_change_between_run_and_base ''2035_run'' ''2035_base'' ''2035''
             ''Reliable 1'' unmatched_scenario))
     (change_key ''X'' ''2035_run'' ''Reliable 1'' ''travel_time_X_AM'' ''2035'') = Some (Fin 5) \<and>
   map_of (state_after (calculate_change_between_run_and_base ''2035_run'' ''2035_base'' ''2035''
             ''Reliable 1'' unmatched_scenario))
     (pct_change_key ''X'' ''2035_run'' ''Reliable 1'' ''travel_time_X_AM'' ''2035'') = Some (Fin (5 / 2)) \<and>
   \<not> (\<exists>d'. calculate_change_between_run_and_base ''2035_run'' ''2035_base'' ''2035''
             ''Reliable 1'' unmatched_scenario = Inr d')"
proof -
  let ?d = "unmatched_scenario"
  have h1: "0 < length (metrics_list ''2035_run'' ''Reliable 1'' ?d)"
    by (simp add: metrics_list_unmatched)
  have h2: "\<forall>m\<in>set (take 0 (metrics_list ''2035_run'' ''Reliable 1'' ?d)).
              \<exists>r\<in>set ?d. modelrun_id (fst r) = ''2035_base'' \<and> metric_desc (fst r) = m"
    by simp
  have h3: "iloc0_value ''2035_run'' (metrics_list ''2035_run'' ''Reliable 1'' ?d ! 0) ?d = Inr (Fin 7)"
    unfolding metrics_list_unmatched
    by (simp add: iloc0_value_def unmatched_scenario_def delta_scenario_def delta_values_def)
  have h4: "iloc0_value ''2035_base'' (metrics_list ''2035_run'' ''Reliable 1'' ?d ! 0) ?d = Inr (Fin 2)"
    unfolding metrics_list_unmatched
    by (simp add: iloc0_value_def unmatched_scenario_def delta_scenario_def delta_values_def)
  have h5: "\<not> (\<forall>m\<in>set (metrics_list ''2035_run'' ''Reliable 1'' ?d).
               \<exists>r\<in>set ?d. modelrun_id (fst r) = ''2035_base'' \<and> metric_desc (fst r) = m)"
    unfolding metrics_list_unmatched
    by (simp add: unmatched_scenario_def delta_scenario_def delta_values_def)
  from delta_current_minus_base[OF h1 h2 h3 h4, of "''2035''"] h5 show ?thesis
    by (simp add: metrics_list_unmatched next_key_scenario)
qed

text \<open>
  C4 (as stated, refuted).  With base value 0 and run value 120 the function returns
  normally and stores the percentage change as plain infinity, with no flag.
\<close>

theorem zero_base_pct_counterexample:
  "calculate_change_between_run_and_base ''2035_run'' ''2035_base'' ''2035'' ''Reliable 1''
       (delta_scenario 120 0)
     = Inr (delta_scenario 120 0 @
         [(change_key ''X'' ''2035_run'' ''Reliable 1'' ''travel_time_X_AM'' ''2035'', Fin 120),
          (pct_change_key ''X'' ''2035_run'' ''Reliable 1'' ''travel_time_X_AM'' ''2035'', PInf)])"
  unfolding calculate_change_between_run_and_base_def delta_scenario_def metrics_list_scenario
  by (simp add: next_key_scenario iloc0_value_def delta_values_def change_key_def
      pct_change_key_def Let_def)

text \<open>
  C4 (amended).  Take the metric at position \<open>i\<close> of the run's list, with a base value
  that is zero (\<open>0.0\<close> or \<open>-0.0\<close>), and suppose every metric before it in the list has a
  row of the base run.  Then the dictionary the function leaves behind, whether it
  returns or raises at a later metric, holds under \<open>pct_change_in_<metric>\<close> the
  unflagged float quotient, which is an infinity or NaN: for a finite run value \<open>c\<close> it
  is NaN when \<open>c = 0\<close>, and otherwise the infinity whose sign is that of \<open>c\<close> when the
  base is \<open>0.0\<close> and the opposite sign when the base is \<open>-0.0\<close>.  The division raises
  nothing: the function returns exactly when every metric of the list has a row of the
  base run, and any exception it raises is an IndexError.
\<close>

theorem zero_base_pct_is_float_quotient:
  assumes "i < length (metrics_list tm_run_id mid d)"
      and "\<forall>m\<in>set (take i (metrics_list tm_run_id mid d)).
             \<exists>r\<in>set d. modelrun_id (fst r) = base \<and> metric_desc (fst r) = m"
      and "iloc0_value tm_run_id (metrics_list tm_run_id mid d ! i) d = Inr val_run"
      and "iloc0_value base (metrics_list tm_run_id mid d ! i) d = Inr val_base"
      and "val_base = Fin 0 \<or> val_base = NegZero"
  shows "(\<exists>q. map_of (state_after (calculate_change_between_run_and_base tm_run_id base yr mid d))
               (pct_change_key (foldl next_key ''Change'' (take (Suc i) (metrics_list tm_run_id mid d)))
                  tm_run_id mid (metrics_list tm_run_id mid d ! i) yr) = Some q \<and>
             (q = PInf \<or> q = NInf \<or> q = NaN) \<and>
             (\<forall>c. val_run = Fin c \<longrightarrow>
                q = (if c = 0 then NaN else if (0 < c) = (val_base = Fin 0) then PInf else NInf))) \<and>
         ((\<exists>d'. calculate_change_between_run_and_base tm_run_id base yr mid d = Inr d') \<longleftrightarrow>
            (\<forall>m\<in>set (metrics_list tm_run_id mid d).
               \<exists>r\<in>set d. modelrun_id (fst r) = base \<and> metric_desc (fst r) = m)) \<and>
         (\<forall>e d'. calculate_change_between_run_and_base tm_run_id base yr mid d = Inl (e, d') \<longrightarrow>
            e = IndexError)"
proof -
  have before: "\<forall>m\<in>set (take i (metrics_list tm_run_id mid d)). \<exists>v. iloc0_value base m d = Inr v"
    using assms(2) by (simp add: iloc0_value_present)
  from assms(1) have ne: "d \<noteq> []" by (auto simp add: metrics_list_def)
  have ret: "(\<exists>d'. calculate_change_between_run_and_base tm_run_id base yr mid d = Inr d') \<longleftrightarrow>
            (\<forall>m\<in>set (metrics_list tm_run_id mid d).
               \<exists>r\<in>set d. modelrun_id (fst r) = base \<and> metric_desc (fst r) = m)"
    using calculate_change_returns_iff[OF ne, of tm_run_id base yr mid]
    by (simp add: iloc0_value_present)
  have err: "\<forall>e d'. calculate_change_between_run_and_base tm_run_id base yr mid d = Inl (e, d') \<longrightarrow>
            e = IndexError"
    using calculate_change_raises_IndexError[OF ne] by blast
  let ?q = "fdiv (fsub val_run val_base) val_base"
  have q1: "?q = PInf \<or> ?q = NInf \<or> ?q = NaN"
    using assms(5) by (cases val_run) (auto split: if_splits)
  have q2: "\<forall>c. val_run = Fin c \<longrightarrow>
              ?q = (if c = 0 then NaN else if (0 < c) = (val_base = Fin 0) then PInf else NInf)"
    using assms(5) by auto
  from calculate_change_entry[OF assms(1) before assms(3,4), of yr]
  have "map_of (state_after (calculate_change_between_run_and_base tm_run_id base yr mid d))
               (pct_change_key (foldl next_key ''Change'' (take (Suc i) (metrics_list tm_run_id mid d)))
                  tm_run_id mid (metrics_list tm_run_id mid d ! i) yr) = Some ?q"
    by simp
  with q1 q2 have "\<exists>q. map_of (state_after (calculate_change_between_run_and_base tm_run_id base yr mid d))
               (pct_change_key (foldl next_key ''Change'' (take (Suc i) (metrics_list tm_run_id mid d)))
                  tm_run_id mid (metrics_list tm_run_id mid d ! i) yr) = Some q \<and>
             (q = PInf \<or> q = NInf \<or> q = NaN) \<and>
             (\<forall>c. val_run = Fin c \<longrightarrow>
                q = (if c = 0 then NaN else if (0 < c) = (val_base = Fin 0) then PInf else NInf))"
    by blast
  with ret err show ?thesis by blast
qed

theorem zero_base_pct_is_float_quotient_witness:
  "map_of (state_after (calculate_change_between_run_and_base ''2035_run'' ''2035_base'' ''2035''
             ''Reliable 1'' zero_then_unmatched_scenario))
     (pct_change_key ''X'' ''2035_run'' ''Reliable 1'' ''travel_time_X_AM'' ''2035'') = Some PInf \<and>
   map_of (state_after (calculate_change_between_run_and_base ''2035_run'' ''2035_base'' ''2035''
             ''Reliable 1'' (delta_values (Fin (- 3)) NegZero)))
     (pct_change_key ''X'' ''2035_run'' ''Reliable 1'' ''travel_time_X_AM'' ''2035'') = Some PInf"
proof -
  let ?d = "zero_then_unmatched_scenario"
  have h1: "0 < length (metrics_list ''2035_run'' ''Reliable 1'' ?d)"
    by (simp add: metrics_list_zero_then_unmatched)
  have h2: "\<forall>m\<in>set (take 0 (metrics_list ''2035_run'' ''Reliable 1'' ?d)).
              \<exists>r\<in>set ?d. modelrun_id (fst r) = ''2035_base'' \<and> metric_desc (fst r) = m"
    by simp
  have h3: "iloc0_value ''2035_run'' (metrics_list ''2035_run'' ''Reliable 1'' ?d ! 0) ?d = Inr (Fin 120)"
    unfolding metrics_list_zero_then_unmatched
    by (simp add: iloc0_value_def zero_then_unmatched_scenario_def delta_values_def unmatched_row_def)
  have h4: "iloc0_value ''2035_base'' (metrics_list ''2035_run'' ''Reliable 1'' ?d ! 0) ?d = Inr (Fin 0)"
    unfolding metrics_list_zero_then_unmatched
    by (simp add: iloc0_value_def zero_then_unmatched_scenario_def delta_values_def unmatched_row_def)
  let ?e = "delta_values (Fin (- 3)) NegZero"
  have g1: "0 < length (metrics_list ''2035_run'' ''Reliable 1'' ?e)"
    by (simp add: metrics_list_scenario)
  have g2: "\<forall>m\<in>set (take 0 (metrics_list ''2035_run'' ''Reliable 1'' ?e)).
              \<exists>r\<in>set ?e. modelrun_id (fst r) = ''2035_base'' \<and> metric_desc (fst r) = m"
    by simp
  have g3: "iloc0_value ''2035_run'' (metrics_list ''2035_run'' ''Reliable 1'' ?e ! 0) ?e = Inr (Fin (- 3))"
    by (simp add: metrics_list_scenario iloc0_value_scenario)
  have g4: "iloc0_value ''2035_base'' (metrics_list ''2035_run'' ''Reliable 1'' ?e ! 0) ?e = Inr NegZero"
    by (simp add: metrics_list_scenario iloc0_value_scenario)
  from zero_base_pct_is_float_quotient[OF h1 h2 h3 h4, of "''2035''"]
       zero_base_pct_is_float_quotient[OF g1 g2 g3 g4, of "''2035''"]
  show ?thesis
    by (simp add: metrics_list_zero_then_unmatched metrics_list_scenario next_key_scenario)
qed

text \<open>
  C5.  If a metric of the run's list has no row of the base run with the same
  description, the function raises IndexError (from \<open>iloc[0]\<close> on the empty selection),
  and the dictionary it leaves behind has no new entry for that metric: its
  \<open>change_in_\<close> and \<open>pct_change_in_\<close> keys are as they were.
\<close>

theorem unmatched_base_raises:
  assumes "m \<in> set (metrics_list tm_run_id mid d)"
      and "\<forall>r\<in>set d. modelrun_id (fst r) = base \<longrightarrow> metric_desc (fst r) \<noteq> m"
  shows "\<exists>d'. calculate_change_between_run_and_base tm_run_id base yr mid d = Inl (IndexError, d') \<and>
           (\<forall>k. map_of d' (change_key k tm_run_id mid m yr) = map_of d (change_key k tm_run_id mid m yr) \<and>
                map_of d' (pct_change_key k tm_run_id mid m yr) = map_of d (pct_change_key k tm_run_id mid m yr))"
proof -
  from assms(2) have absent: "iloc0_value base m d = Inl IndexError"
    by (auto simp add: iloc0_value_absent)
  from assms(1) have ne: "d \<noteq> []" by (auto simp add: metrics_list_def)
  from change_loop_fails[OF assms(1) absent, of tm_run_id yr mid "''Change''" d]
  show ?thesis
    by (simp only: calculate_change_between_run_and_base_def ne if_False)
qed

theorem unmatched_base_raises_witness:
  "\<exists>d'. calculate_change_between_run_and_base ''2035_run'' ''2035_base'' ''2035'' ''Reliable 1''
           unmatched_scenario = Inl (IndexError, d') \<and>
        map_of d' (change_key ''Y'' ''2035_run'' ''Reliable 1'' ''travel_time_Y_AM'' ''2035'') = None \<and>
        map_of d' (pct_change_key ''Y'' ''2035_run'' ''Reliable 1'' ''travel_time_Y_AM'' ''2035'') = None"
proof -
  have h1: "''travel_time_Y_AM'' \<in> set (metrics_list ''2035_run'' ''Reliable 1'' unmatched_scenario)"
    by (simp add: metrics_list_def unmatched_scenario_def delta_scenario_def delta_values_def)
  have h2: "\<forall>r\<in>set unmatched_scenario.
      modelrun_id (fst r) = ''2035_base'' \<longrightarrow> metric_desc (fst r) \<noteq> ''travel_time_Y_AM''"
    by (simp add: unmatched_scenario_def delta_scenario_def delta_values_def)
  from unmatched_base_raises[OF h1 h2, of "''2035''"] obtain d' where
    r: "calculate_change_between_run_and_base ''2035_run'' ''2035_base'' ''2035'' ''Reliable 1''
           unmatched_scenario = Inl (IndexError, d')" and
    u: "\<And>k. map_of d' (change_key k ''2035_run'' ''Reliable 1'' ''travel_time_Y_AM'' ''2035'')
             = map_of unmatched_scenario (change_key k ''2035_run'' ''Reliable 1'' ''travel_time_Y_AM'' ''2035'') \<and>
           map_of d' (pct_change_key k ''2035_run'' ''Reliable 1'' ''travel_time_Y_AM'' ''2035'')
             = map_of unmatched_scenario (pct_change_key k ''2035_run'' ''Reliable 1'' ''travel_time_Y_AM'' ''2035'')"
    by blast
  from u[of "''Y''"] have
    "map_of d' (change_key ''Y'' ''2035_run'' ''Reliable 1'' ''travel_time_Y_AM'' ''2035'') = None \<and>
     map_of d' (pct_change_key ''Y'' ''2035_run'' ''Reliable 1'' ''travel_time_Y_AM'' ''2035'') = None"
    by (simp add: unmatched_scenario_def delta_scenario_def delta_values_def change_key_def pct_change_key_def)
  with r show ?thesis by blast
qed


section \<open>Properties of the batch loop\<close>

lemma run_batch_append:
  "run_batch skip out process (xs @ ys) w =
     (case run_batch skip out process xs w of
        Inl f \<Rightarrow> Inl f
      | Inr w' \<Rightarrow> run_batch skip out process ys w')"
  by (induction xs arbitrary: w) (auto split: sum.splits)

lemma process_run_example_bad:
  "process_run (example_calculators bad) bad = Inl FileNotFoundError"
  by (simp add: process_run_def example_calculators_def and_then_def)

lemma process_run_example_good:
  "r \<noteq> bad \<Longrightarrow> process_run (example_calculators bad) r = Inr [example_row r ''Affordable 1'']"
  by (simp add: process_run_def example_calculators_def and_then_def metrics_dict_to_df_def)

text \<open>
  A calculator that raises makes the whole body of the loop raise: the calculators after
  it are not reached and nothing is returned for the run.  (Shown for the calculators
  whose outcome does not depend on the dictionary handed on.)
\<close>

lemma stage_failure_fails_run:
  assumes "load_inputs cs r = Inl e \<or> c_Affordable1_transportation_costs cs r = Inl e \<or>
           c_Efficient1_ratio_travel_time cs r = Inl e \<or>
           c_Efficient2_commute_mode_share cs r = Inl e \<or> c_Safe2_change_in_vmt cs r = Inl e"
  shows "\<exists>e'. process_run cs r = Inl e'"
  using assms by (auto simp add: process_run_def and_then_def split: sum.splits)

text \<open>
  C1 (as stated, refuted).  A batch of two runs in which \<open>Safe 2\<close> raises for the first
  run: the loop ends with that error.  No file has been written, not even for the second
  run, whose inputs are fine, and the log holds nothing about the failure.
\<close>

theorem failure_aborts_batch_counterexample:
  "ngfs_metrics_main False (example_calculators ''2035_A'') ''out/'' [''2035_A'', ''2035_B'']
      \<lparr>files = Map.empty, log = []\<rparr>
    = Inl (FileNotFoundError, \<lparr>files = Map.empty, log = [''Processing run 2035_A'']\<rparr>)"
  by (simp add: ngfs_metrics_main_def process_run_example_bad processing_msg_def)

text \<open>
  C1 (amended).  If processing a run raises (at any stage: every stage is a step of
  \<open>process_run\<close>), the exception leaves the main loop: the loop ends with that error, in
  the world the earlier runs left, plus the one message \<open>"Processing run ..."\<close>.  So the
  failing run's file is not written, no later run is looked at (the result does not
  depend on \<open>later\<close>), and the files of the earlier runs stay as written.
\<close>

theorem metric_failure_aborts_batch:
  assumes "ngfs_metrics_main skip cs cwd earlier w = Inr w0"
      and "\<not> (skip \<and> files w0 (ngfs_out_filename cwd tm_run_id) \<noteq> None)"
      and "process_run cs tm_run_id = Inl e"
  shows "ngfs_metrics_main skip cs cwd (earlier @ tm_run_id # later) w
           = Inl (e, w0\<lparr>log := log w0 @ [processing_msg tm_run_id]\<rparr>)"
  using assms by (auto simp add: ngfs_metrics_main_def run_batch_append)

theorem metric_failure_aborts_batch_witness:
  "ngfs_metrics_main True (example_calculators ''2035_A'') ''out/''
      ([''2035_B''] @ ''2035_A'' # [''2035_C'']) \<lparr>files = Map.empty, log = []\<rparr>
    = Inl (FileNotFoundError,
        \<lparr>files = [''out/ngfs_metrics_2035_B.csv'' \<mapsto> [example_row ''2035_B'' ''Affordable 1'']],
         log = [''Processing run 2035_B'', ''Wrote out/ngfs_metrics_2035_B.csv'',
                ''Processing run 2035_A'']\<rparr>)"
proof -
  let ?w0 = "\<lparr>files = [''out/ngfs_metrics_2035_B.csv'' \<mapsto> [example_row ''2035_B'' ''Affordable 1'']],
         log = [''Processing run 2035_B'', ''Wrote out/ngfs_metrics_2035_B.csv'']\<rparr>"
  have h1: "ngfs_metrics_main True (example_calculators ''2035_A'') ''out/'' [''2035_B'']
              \<lparr>files = Map.empty, log = []\<rparr> = Inr ?w0"
    by (simp add: ngfs_metrics_main_def process_run_example_good processing_msg_def wrote_msg_def
        ngfs_out_filename_def os_path_join_def)
  have h2: "\<not> (True \<and> files ?w0 (ngfs_out_filename ''out/'' ''2035_A'') \<noteq> None)"
    by (simp add: ngfs_out_filename_def os_path_join_def)
  have h3: "process_run (example_calculators ''2035_A'') ''2035_A'' = Inl FileNotFoundError"
    by (rule process_run_example_bad)
  from metric_failure_aborts_batch[OF h1 h2 h3, of "[''2035_C'']"] show ?thesis
    by (simp add: processing_msg_def)
qed


section \<open>Properties of the lookup join\<close>


lemma drop_duplicates_from_keys:
  "f ` set (drop_duplicates_from f seen xs) = f ` set xs - set seen"
  by (induction xs arbitrary: seen) auto

lemma drop_duplicates_from_subset:
  "set (drop_duplicates_from f seen xs) \<subseteq> set xs"
  by (induction xs arbitrary: seen) auto

lemma drop_duplicates_from_distinct:
  "distinct (map f (drop_duplicates_from f seen xs))"
proof (induction xs arbitrary: seen)
  case Nil
  then show ?case by simp
next
  case (Cons x xs)
  have "f x \<notin> f ` set (drop_duplicates_from f (f x # seen) xs)"
    by (simp add: drop_duplicates_from_keys)
  with Cons show ?case by simp
qed

lemma drop_duplicates_from_first:
  assumes "sorted (map g ys)" and "x \<in> set (drop_duplicates_from f seen ys)"
      and "y \<in> set ys" and "f y = f x"
  shows "g x \<le> g y"
  using assms
proof (induction ys arbitrary: seen)
  case Nil
  then show ?case by simp
next
  case (Cons z zs)
  have notseen: "f x \<notin> set seen"
    using Cons.prems(2) drop_duplicates_from_keys[of f seen "z # zs"] by blast
  show ?case
  proof (cases "f z \<in> set seen")
    case True
    with Cons.prems notseen have "x \<in> set (drop_duplicates_from f seen zs)" "y \<in> set zs"
      by auto
    with Cons.IH[of seen] Cons.prems show ?thesis by simp
  next
    case False
    show ?thesis
    proof (cases "x = z")
      case True
      with Cons.prems show ?thesis by auto
    next
      case xz: False
      with False Cons.prems have xin: "x \<in> set (drop_duplicates_from f (f z # seen) zs)" by simp
      then have "f x \<noteq> f z"
        using drop_duplicates_from_keys[of f "f z # seen" zs] by auto
      with Cons.prems have "y \<in> set zs" by auto
      with Cons.IH[OF _ xin] Cons.prems show ?thesis by simp
    qed
  qed
qed

lemma largest_first_dedup_distinct:
  "distinct (map key_cols (largest_first_dedup col key_cols df))"
proof -
  let ?ys = "drop_duplicates (\<lambda>ir. key_cols (snd ir))
         (sort_key (\<lambda>ir. - col (snd ir)) (enumerate 0 df))"
  have d: "distinct (map (\<lambda>ir. key_cols (snd ir)) ?ys)"
    by (simp add: drop_duplicates_def drop_duplicates_from_distinct)
  then have "distinct ?ys \<and> inj_on (\<lambda>ir. key_cols (snd ir)) (set ?ys)"
    by (simp add: distinct_map)
  then have "distinct (map (\<lambda>ir. key_cols (snd ir)) (sort_key fst ?ys))"
    by (simp add: distinct_map)
  then show ?thesis
    by (simp add: largest_first_dedup_def comp_def)
qed

lemma largest_first_dedup_keys:
  "key_cols ` set (largest_first_dedup col key_cols df) = key_cols ` set df"
proof -
  have "key_cols ` set (largest_first_dedup col key_cols df)
        = (\<lambda>ir. key_cols (snd ir)) ` set (drop_duplicates (\<lambda>ir. key_cols (snd ir))
             (sort_key (\<lambda>ir. - col (snd ir)) (enumerate 0 df)))"
    by (simp add: largest_first_dedup_def image_image)
  also have "\<dots> = (\<lambda>ir. key_cols (snd ir)) ` set (enumerate 0 df)"
    by (simp add: drop_duplicates_def drop_duplicates_from_keys)
  also have "\<dots> = key_cols ` snd ` set (enumerate 0 df)"
    by (simp add: image_image)
  also have "snd ` set (enumerate 0 df) = set df"
    by (metis list.set_map map_snd_enumerate)
  finally show ?thesis .
qed

lemma largest_first_dedup_largest:
  assumes "x \<in> set (largest_first_dedup col key_cols df)"
  shows "x \<in> set df \<and> (\<forall>y\<in>set df. key_cols y = key_cols x \<longrightarrow> col y \<le> col x)"
proof -
  let ?srt = "sort_key (\<lambda>ir. - col (snd ir)) (enumerate 0 df)"
  from assms obtain i where ix: "(i, x) \<in> set (drop_duplicates_from (\<lambda>ir. key_cols (snd ir)) [] ?srt)"
    by (auto simp add: largest_first_dedup_def drop_duplicates_def)
  have srt: "sorted (map (\<lambda>ir. - col (snd ir)) ?srt)" by simp
  have sub: "(i, x) \<in> set (enumerate 0 df)"
    using ix drop_duplicates_from_subset[of "\<lambda>ir. key_cols (snd ir)" "[]" ?srt] by auto
  then have xin: "x \<in> set df" by (auto simp add: in_set_enumerate_eq)
  have "\<forall>y\<in>set df. key_cols y = key_cols x \<longrightarrow> col y \<le> col x"
  proof (intro ballI impI)
    fix y assume y: "y \<in> set df" and k: "key_cols y = key_cols x"
    from y obtain j where "j < length df" "df ! j = y"
      by (auto simp add: in_set_conv_nth)
    then have "(j, y) \<in> set (enumerate 0 df)"
      by (simp add: in_set_enumerate_eq)
    then have "(j, y) \<in> set ?srt" by simp
    from drop_duplicates_from_first[OF srt ix this] k show "col y \<le> col x" by simp
  qed
  with xin show ?thesis by simp
qed

lemma filter_key_distinct:
  "distinct (map f xs) \<Longrightarrow> length (filter (\<lambda>x. f x = k) xs) \<le> 1"
  by (induction xs) (auto simp add: filter_empty_conv image_iff)

lemma merge_left_unique:
  assumes "distinct (map right_on right)"
  shows "map fst (merge_left left_on right_on left right) = left"
proof -
  have one: "\<And>l. map fst (case filter (\<lambda>r. right_on r = left_on l) right of
                          [] \<Rightarrow> [(l, None)]
                        | ms \<Rightarrow> map (\<lambda>r. (l, Some r)) ms) = [l]"
  proof -
    fix l
    from filter_key_distinct[OF assms, of "left_on l"]
    have "length (filter (\<lambda>r. right_on r = left_on l) right) \<le> 1" .
    then show "map fst (case filter (\<lambda>r. right_on r = left_on l) right of
                          [] \<Rightarrow> [(l, None)]
                        | ms \<Rightarrow> map (\<lambda>r. (l, Some r)) ms) = [l]"
      by (cases "filter (\<lambda>r. right_on r = left_on l) right") (auto simp add: comp_def)
  qed
  show ?thesis
    unfolding merge_left_def
    by (induction left) (simp_all add: one)
qed

lemma merge_left_match:
  assumes "(l, m) \<in> set (merge_left left_on right_on left right)"
  shows "l \<in> set left \<and>
         (case m of None \<Rightarrow> \<forall>r\<in>set right. right_on r \<noteq> left_on l
          | Some r \<Rightarrow> r \<in> set right \<and> right_on r = left_on l)"
proof -
  from assms obtain l' where l': "l' \<in> set left" and
    mem: "(l, m) \<in> set (case filter (\<lambda>r. right_on r = left_on l') right of
                          [] \<Rightarrow> [(l', None)]
                        | ms \<Rightarrow> map (\<lambda>r. (l', Some r)) ms)"
    by (auto simp add: merge_left_def)
  show ?thesis
  proof (cases "filter (\<lambda>r. right_on r = left_on l') right")
    case Nil
    with mem l' show ?thesis by (auto simp add: filter_empty_conv)
  next
    case (Cons a as)
    with mem have "l = l'" and "\<exists>r. m = Some r \<and> r \<in> set (filter (\<lambda>r. right_on r = left_on l') right)"
      by auto
    with l' show ?thesis by auto
  qed
qed


lemma join_network_fst: "map fst (join_network network links_taz epc) = network"
  unfolding join_network_def tm_network_links_with_epc_df_def
  by (rule merge_left_unique) (rule largest_first_dedup_distinct)

lemma tm_network_links_with_epc_df_scenario:
  "tm_network_links_with_epc_df scenario_links_taz scenario_epc =
     [(\<lparr>lt_A = 1, lt_B = 2, TAZ1454 = 200, linktaz_share = 0.7\<rparr>,
       Some \<lparr>epc_TAZ1454 = 200, taz_epc = 1\<rparr>)]"
  by (simp add: tm_network_links_with_epc_df_def largest_first_dedup_def merge_left_def
      scenario_links_taz_def scenario_epc_def drop_duplicates_def enumerate_eq_zip)

lemma merged_fst:
  "fst ` set (merge_left TAZ1454 epc_TAZ1454 links_taz epc) = set links_taz"
proof
  show "fst ` set (merge_left TAZ1454 epc_TAZ1454 links_taz epc) \<subseteq> set links_taz"
    using merge_left_match[of _ _ TAZ1454 epc_TAZ1454 links_taz epc] by force
  show "set links_taz \<subseteq> fst ` set (merge_left TAZ1454 epc_TAZ1454 links_taz epc)"
  proof
    fix t assume t: "t \<in> set links_taz"
    show "t \<in> fst ` set (merge_left TAZ1454 epc_TAZ1454 links_taz epc)"
    proof (cases "filter (\<lambda>r. epc_TAZ1454 r = TAZ1454 t) epc")
      case Nil
      with t have "(t, None) \<in> set (merge_left TAZ1454 epc_TAZ1454 links_taz epc)" by (force simp add: merge_left_def)
      then show ?thesis by force
    next
      case (Cons a as)
      with t have "(t, Some a) \<in> set (merge_left TAZ1454 epc_TAZ1454 links_taz epc)" by (force simp add: merge_left_def)
      then show ?thesis by force
    qed
  qed
qed

lemma join_network_lookup:
  "\<forall>j\<in>set (join_network network links_taz epc).
      case snd j of
        None \<Rightarrow> \<forall>t\<in>set links_taz. (lt_A t, lt_B t) \<noteq> (col_a (fst j), col_b (fst j))
      | Some m \<Rightarrow>
          m \<in> set (merge_left TAZ1454 epc_TAZ1454 links_taz epc) \<and>
          (lt_A (fst m), lt_B (fst m)) = (col_a (fst j), col_b (fst j)) \<and>
          (\<forall>t\<in>set links_taz. (lt_A t, lt_B t) = (col_a (fst j), col_b (fst j)) \<longrightarrow>
               linktaz_share t \<le> linktaz_share (fst m))"
proof -
  let ?merged = "merge_left TAZ1454 epc_TAZ1454 links_taz epc"
  let ?key = "\<lambda>r::link_epc. (lt_A (fst r), lt_B (fst r))"
  show ?thesis
  proof
    fix j assume "j \<in> set (join_network network links_taz epc)"
    then have jm: "(fst j, snd j) \<in> set (merge_left (\<lambda>l. (col_a l, col_b l)) ?key network
                     (largest_first_dedup (\<lambda>r. linktaz_share (fst r)) ?key ?merged))"
      by (simp add: join_network_def tm_network_links_with_epc_df_def)
    note mm = merge_left_match[OF jm]
    show "case snd j of
        None \<Rightarrow> \<forall>t\<in>set links_taz. (lt_A t, lt_B t) \<noteq> (col_a (fst j), col_b (fst j))
      | Some m \<Rightarrow>
          m \<in> set ?merged \<and>
          (lt_A (fst m), lt_B (fst m)) = (col_a (fst j), col_b (fst j)) \<and>
          (\<forall>t\<in>set links_taz. (lt_A t, lt_B t) = (col_a (fst j), col_b (fst j)) \<longrightarrow>
               linktaz_share t \<le> linktaz_share (fst m))"
    proof (cases "snd j")
      case None
      with mm have "\<forall>r\<in>set (largest_first_dedup (\<lambda>r. linktaz_share (fst r)) ?key ?merged).
                      ?key r \<noteq> (col_a (fst j), col_b (fst j))" by simp
      then have "(col_a (fst j), col_b (fst j))
                   \<notin> ?key ` set (largest_first_dedup (\<lambda>r. linktaz_share (fst r)) ?key ?merged)"
        by force
      then have "(col_a (fst j), col_b (fst j)) \<notin> ?key ` set ?merged"
        by (simp add: largest_first_dedup_keys)
      then have "\<forall>t\<in>fst ` set ?merged. (lt_A t, lt_B t) \<noteq> (col_a (fst j), col_b (fst j))"
        by force
      with None show ?thesis by (simp add: merged_fst)
    next
      case (Some m)
      with mm have m: "m \<in> set (largest_first_dedup (\<lambda>r. linktaz_share (fst r)) ?key ?merged)"
        and k: "?key m = (col_a (fst j), col_b (fst j))" by simp_all
      from largest_first_dedup_largest[OF m]
      have min: "m \<in> set ?merged" and
        big: "\<forall>y\<in>set ?merged. ?key y = ?key m \<longrightarrow> linktaz_share (fst y) \<le> linktaz_share (fst m)"
        by simp_all
      have "\<forall>t\<in>set links_taz. (lt_A t, lt_B t) = (col_a (fst j), col_b (fst j)) \<longrightarrow>
               linktaz_share t \<le> linktaz_share (fst m)"
      proof (intro ballI impI)
        fix t assume "t \<in> set links_taz" and tk: "(lt_A t, lt_B t) = (col_a (fst j), col_b (fst j))"
        then obtain y where "y \<in> set ?merged" "fst y = t" using merged_fst by force
        with big k tk show "linktaz_share t \<le> linktaz_share (fst m)" by force
      qed
      with Some min k show ?thesis by simp
    qed
  qed
qed

text \<open>
  C2.  The network joined with the link-to-TAZ-to-EPC lookup (lines 103-116) has exactly
  one row for each network row, in the network's order: none is dropped and none is
  repeated, however many lookup rows share a link's \<open>(A, B)\<close>.  A row the lookup does not
  know gets null lookup columns; otherwise the lookup row it gets is one of the link's
  rows with the largest \<open>linktaz_share\<close>.
\<close>

theorem join_preserves_network_rows:
  "map fst (join_network network links_taz epc) = network \<and>
   (\<forall>j\<in>set (join_network network links_taz epc).
      case snd j of
        None \<Rightarrow> \<forall>t\<in>set links_taz. (lt_A t, lt_B t) \<noteq> (col_a (fst j), col_b (fst j))
      | Some m \<Rightarrow>
          m \<in> set (merge_left TAZ1454 epc_TAZ1454 links_taz epc) \<and>
          (lt_A (fst m), lt_B (fst m)) = (col_a (fst j), col_b (fst j)) \<and>
          (\<forall>t\<in>set links_taz. (lt_A t, lt_B t) = (col_a (fst j), col_b (fst j)) \<longrightarrow>
               linktaz_share t \<le> linktaz_share (fst m)))"
  using join_network_fst join_network_lookup by blast

theorem join_preserves_network_rows_witness:
  "map fst (join_network [scenario_freeway_link, scenario_arterial_link] scenario_links_taz scenario_epc)
     = [scenario_freeway_link, scenario_arterial_link] \<and>
   join_network [scenario_freeway_link, scenario_arterial_link] scenario_links_taz scenario_epc
     = [(scenario_freeway_link,
          Some (\<lparr>lt_A = 1, lt_B = 2, TAZ1454 = 200, linktaz_share = 0.7\<rparr>,
                Some \<lparr>epc_TAZ1454 = 200, taz_epc = 1\<rparr>)),
        (scenario_arterial_link, None)]"
proof -
  have "join_network [scenario_freeway_link, scenario_arterial_link] scenario_links_taz scenario_epc
     = [(scenario_freeway_link,
          Some (\<lparr>lt_A = 1, lt_B = 2, TAZ1454 = 200, linktaz_share = 0.7\<rparr>,
                Some \<lparr>epc_TAZ1454 = 200, taz_epc = 1\<rparr>)),
        (scenario_arterial_link, None)]"
    unfolding join_network_def tm_network_links_with_epc_df_scenario
    by (simp add: merge_left_def scenario_freeway_link_def scenario_arterial_link_def)
  with join_preserves_network_rows[of "[scenario_freeway_link, scenario_arterial_link]"
         scenario_links_taz scenario_epc]
  show ?thesis by blast
qed


section \<open>Properties of the sum aggregation\<close>


lemma sum_over_keys:
  assumes "finite K"
  shows "(\<Sum>k\<in>K. sum_list (map c (filter (\<lambda>r. keyf r = Some k) df)))
         = sum_list (map c (filter (\<lambda>r. \<exists>k\<in>K. keyf r = Some k) df))"
proof (induction df)
  case Nil
  then show ?case by simp
next
  case (Cons r df)
  show ?case
  proof (cases "\<exists>k\<in>K. keyf r = Some k")
    case True
    then obtain k0 where k0: "k0 \<in> K" "keyf r = Some k0" by blast
    have "(\<Sum>k\<in>K. sum_list (map c (filter (\<lambda>r. keyf r = Some k) (r # df))))
          = (\<Sum>k\<in>K. (if k = k0 then c r else 0) + sum_list (map c (filter (\<lambda>r. keyf r = Some k) df)))"
      using k0 by (intro sum.cong) auto
    also have "\<dots> = c r + (\<Sum>k\<in>K. sum_list (map c (filter (\<lambda>r. keyf r = Some k) df)))"
      using assms k0 by (simp add: sum.distrib)
    finally show ?thesis using True Cons.IH by simp
  next
    case False
    then have "(\<Sum>k\<in>K. sum_list (map c (filter (\<lambda>r. keyf r = Some k) (r # df))))
          = (\<Sum>k\<in>K. sum_list (map c (filter (\<lambda>r. keyf r = Some k) df)))"
      by (intro sum.cong) auto
    then show ?thesis using False Cons.IH by simp
  qed
qed

lemma groupby_sum_keys:
  "map fst (groupby_sum keyf cols df) = sort (remdups (List.map_filter keyf df))"
  by (simp add: groupby_sum_def comp_def)

lemma set_map_filter_key:
  "set (List.map_filter keyf df) = {k. \<exists>r\<in>set df. keyf r = Some k}"
  by (force simp add: List.map_filter_def image_iff)

lemma groupby_sum_key_set:
  "fst ` set (groupby_sum keyf cols df) = {k. \<exists>r\<in>set df. keyf r = Some k}"
proof -
  have "fst ` set (groupby_sum keyf cols df) = set (map fst (groupby_sum keyf cols df))" by simp
  also have "\<dots> = {k. \<exists>r\<in>set df. keyf r = Some k}"
    by (simp only: groupby_sum_keys) (simp add: set_map_filter_key)
  finally show ?thesis .
qed

lemma groupby_sum_distinct: "distinct (map fst (groupby_sum keyf cols df))"
  by (simp only: groupby_sum_keys) simp

lemma groupby_sum_group:
  assumes "g \<in> set (groupby_sum keyf cols df)"
  shows "snd g = map (\<lambda>col. sum_list (map col (filter (\<lambda>r. keyf r = Some (fst g)) df))) cols"
  using assms by (auto simp add: groupby_sum_def)

lemma groupby_sum_restricted_total:
  assumes "i < length cols"
  shows "sum_list (map (\<lambda>g. snd g ! i) (filter (\<lambda>g. P (fst g)) (groupby_sum keyf cols df)))
         = sum_list (map (cols ! i) (filter (\<lambda>r. \<exists>k. keyf r = Some k \<and> P k) df))"
proof -
  let ?ks = "sort (remdups (List.map_filter keyf df))"
  let ?S = "\<lambda>k. sum_list (map (cols ! i) (filter (\<lambda>r. keyf r = Some k) df))"
  have "filter (\<lambda>g. P (fst g)) (groupby_sum keyf cols df)
        = map (\<lambda>k. (k, map (\<lambda>col. sum_list (map col (filter (\<lambda>r. keyf r = Some k) df))) cols))
            (filter P ?ks)"
    by (simp add: groupby_sum_def filter_map comp_def)
  then have "sum_list (map (\<lambda>g. snd g ! i) (filter (\<lambda>g. P (fst g)) (groupby_sum keyf cols df)))
        = sum_list (map ?S (filter P ?ks))"
    using assms by (simp add: comp_def)
  also have "\<dots> = sum ?S (set (filter P ?ks))"
    by (rule sum_list_distinct_conv_sum_set) simp
  also have "\<dots> = sum_list (map (cols ! i) (filter (\<lambda>r. \<exists>k\<in>set (filter P ?ks). keyf r = Some k) df))"
    by (rule sum_over_keys) simp
  also have "filter (\<lambda>r. \<exists>k\<in>set (filter P ?ks). keyf r = Some k) df
             = filter (\<lambda>r. \<exists>k. keyf r = Some k \<and> P k) df"
    by (rule filter_cong) (auto simp add: set_map_filter_key)
  finally show ?thesis .
qed

lemma groupby_sum_total:
  assumes "i < length cols"
  shows "sum_list (map (\<lambda>g. snd g ! i) (groupby_sum keyf cols df))
         = sum_list (map (cols ! i) (filter (\<lambda>r. keyf r \<noteq> None) df))"
  using groupby_sum_restricted_total[OF assms, of "\<lambda>k. True" keyf df] by simp


lemma ft_groupby_key_None:
  "filter (\<lambda>j. ft_groupby_key j \<noteq> None) J
     = filter (\<lambda>j. ft_to_grouping_key (ft (fst j)) \<noteq> None) J"
  by (rule filter_cong) (auto simp add: ft_groupby_key_def split: option.splits)

lemma ft_metrics_total_vmt:
  "sum_list (map (\<lambda>g. snd g ! 0) (ft_metrics_df network links_taz epc))
     = sum_list (map Total_VMT (filter (\<lambda>l. ft_to_grouping_key (ft l) \<noteq> None) network))"
proof -
  let ?J = "join_network network links_taz epc"
  have "sum_list (map (\<lambda>g. snd g ! 0) (ft_metrics_df network links_taz epc))
        = sum_list (map (ft_value_columns ! 0) (filter (\<lambda>j. ft_groupby_key j \<noteq> None) ?J))"
    unfolding ft_metrics_df_def
    by (rule groupby_sum_total) (simp add: ft_value_columns_def)
  also have "\<dots> = sum_list (map (\<lambda>j. Total_VMT (fst j))
                       (filter (\<lambda>j. ft_to_grouping_key (ft (fst j)) \<noteq> None) ?J))"
    by (simp only: ft_groupby_key_None) (simp add: ft_value_columns_def)
  also have "\<dots> = sum_list (map Total_VMT
                       (filter (\<lambda>l. ft_to_grouping_key (ft l) \<noteq> None) (map fst ?J)))"
    by (simp add: filter_map comp_def)
  finally show ?thesis by (simp add: join_network_fst)
qed

text \<open>
  C7 (as stated, refuted).  A network of one freeway link and one toll plaza (\<open>ft = 10\<close>,
  whose grouping labels are null): the aggregation has the freeway group only, with
  total VMT 200 (the first of its sums), while the VMT of the ungrouped table is 205.
\<close>

theorem null_key_rows_counterexample:
  "ft_metrics_df [scenario_freeway_link, toll_plaza_link] scenario_links_taz scenario_epc
     = [((''Freeway'', ''Freeway'', ''EPCs'', ''Non-tolled facilities'', ''San Mateo''),
         [200, 8, 20, 60, 40, 60, 20])] \<and>
   Total_VMT scenario_freeway_link + Total_VMT toll_plaza_link = 205"
  unfolding ft_metrics_df_def join_network_def tm_network_links_with_epc_df_scenario
  by (simp add: merge_left_def groupby_sum_def List.map_filter_def ft_groupby_key_def
      ft_to_grouping_key_def scenario_freeway_link_def toll_plaza_link_def
      EPC_Non_EPC_def Tolled_Non_tolled_def County_def taz_between_def joined_TAZ1454_def
      joined_taz_epc_def ft_value_columns_def Total_VMT_def VHT_def EA_VMT_def AM_VMT_def MD_VMT_def
      PM_VMT_def EV_VMT_def Let_def)

text \<open>
  C7 (amended).  For every table, key and list of summed columns: each group's values
  are the sums of the columns over exactly the rows whose key is the group's key; every
  key that a row has is the key of exactly one group; and the sum of a column over all
  groups is its sum over the rows whose key columns are all non-null (a row with a null
  key column is in no group).  For the trip roll-up, whose keys are never null, this is
  the sum over the whole table; for the Safe 2 table it is the sum over the links whose
  facility type has grouping labels (not types 9 and 10).
\<close>

theorem sum_aggregation_conserves_group_totals:
  "(\<forall>g\<in>set (groupby_sum keyf cols df).
       snd g = map (\<lambda>col. sum_list (map col (filter (\<lambda>r. keyf r = Some (fst g)) df))) cols) \<and>
   distinct (map fst (groupby_sum keyf cols df)) \<and>
   fst ` set (groupby_sum keyf cols df) = {k. \<exists>r\<in>set df. keyf r = Some k} \<and>
   (\<forall>i<length cols. sum_list (map (\<lambda>g. snd g ! i) (groupby_sum keyf cols df))
        = sum_list (map (cols ! i) (filter (\<lambda>r. keyf r \<noteq> None) df))) \<and>
   sum_list (map (\<lambda>g. snd g ! 0) (trips_rollup tm_trips_df)) = sum_list (map freq tm_trips_df) \<and>
   sum_list (map (\<lambda>g. snd g ! 0) (ft_metrics_df network links_taz epc))
     = sum_list (map Total_VMT (filter (\<lambda>l. ft_to_grouping_key (ft l) \<noteq> None) network))"
proof (intro conjI)
  show "\<forall>g\<in>set (groupby_sum keyf cols df).
       snd g = map (\<lambda>col. sum_list (map col (filter (\<lambda>r. keyf r = Some (fst g)) df))) cols"
    using groupby_sum_group by blast
  show "distinct (map fst (groupby_sum keyf cols df))" by (rule groupby_sum_distinct)
  show "fst ` set (groupby_sum keyf cols df) = {k. \<exists>r\<in>set df. keyf r = Some k}"
    by (rule groupby_sum_key_set)
  show "\<forall>i<length cols. sum_list (map (\<lambda>g. snd g ! i) (groupby_sum keyf cols df))
        = sum_list (map (cols ! i) (filter (\<lambda>r. keyf r \<noteq> None) df))"
    using groupby_sum_total by blast
  show "sum_list (map (\<lambda>g. snd g ! 0) (trips_rollup tm_trips_df)) = sum_list (map freq tm_trips_df)"
    unfolding trips_rollup_def by (subst groupby_sum_total) simp_all
  show "sum_list (map (\<lambda>g. snd g ! 0) (ft_metrics_df network links_taz epc))
     = sum_list (map Total_VMT (filter (\<lambda>l. ft_to_grouping_key (ft l) \<noteq> None) network))"
    by (rule ft_metrics_total_vmt)
qed

theorem sum_aggregation_conserves_group_totals_witness:
  "sum_list (map (\<lambda>g. snd g ! 0)
      (groupby_sum ft_groupby_key ft_value_columns
         (map (\<lambda>l. (l, None)) [scenario_freeway_link, toll_plaza_link, scenario_arterial_link])))
   = 250"
proof -
  let ?df = "map (\<lambda>l. (l, None)) [scenario_freeway_link, toll_plaza_link, scenario_arterial_link]"
  from sum_aggregation_conserves_group_totals[of ft_groupby_key ft_value_columns ?df]
  have "\<forall>i<length ft_value_columns.
          sum_list (map (\<lambda>g. snd g ! i) (groupby_sum ft_groupby_key ft_value_columns ?df))
        = sum_list (map (ft_value_columns ! i) (filter (\<lambda>r. ft_groupby_key r \<noteq> None) ?df))"
    by blast
  then have "sum_list (map (\<lambda>g. snd g ! 0) (groupby_sum ft_groupby_key ft_value_columns ?df))
        = sum_list (map (ft_value_columns ! 0) (filter (\<lambda>r. ft_groupby_key r \<noteq> None) ?df))"
    by (simp add: ft_value_columns_def)
  also have "\<dots> = 250"
    by (simp only: ft_groupby_key_None)
       (simp add: ft_value_columns_def ft_to_grouping_key_def
        scenario_freeway_link_def toll_plaza_link_def scenario_arterial_link_def Total_VMT_def)
  finally show ?thesis .
qed


text \<open>
  C6.  For a network of two links, one of facility type 1 with total volume 100 and
  distance 2, one of type 7 with total volume 50 and distance 1 (whatever their other
  columns and whatever the lookup tables): \<open>calculate_top_level_metrics\<close> stores VMT 200
  for Freeway, 50 for Arterial and 0 for the other two Non-Freeway classes; in the Safe 2
  table the groups labelled Freeway sum to 200 and those labelled Non-Freeway to 50.
\<close>

theorem vmt_by_facility_scenario:
  assumes "ft l1 = 1"
      and "volEA_tot l1 + volAM_tot l1 + volMD_tot l1 + volPM_tot l1 + volEV_tot l1 = 100"
      and "distance l1 = 2"
      and "ft l2 = 7"
      and "volEA_tot l2 + volAM_tot l2 + volMD_tot l2 + volPM_tot l2 + volEV_tot l2 = 50"
      and "distance l2 = 1"
  shows "map_of (facility_vmt_metrics tm_run_id yr [l1, l2] d)
           (top_level_key ''Freeway'' tm_run_id ''overall'' ''VMT'' ''Freeway'' yr) = Some (Fin 200) \<and>
         map_of (facility_vmt_metrics tm_run_id yr [l1, l2] d)
           (top_level_key ''Non-Freeway'' tm_run_id ''overall'' ''VMT'' ''Arterial'' yr) = Some (Fin 50) \<and>
         map_of (facility_vmt_metrics tm_run_id yr [l1, l2] d)
           (top_level_key ''Non-Freeway'' tm_run_id ''overall'' ''VMT'' ''Expressway'' yr) = Some (Fin 0) \<and>
         map_of (facility_vmt_metrics tm_run_id yr [l1, l2] d)
           (top_level_key ''Non-Freeway'' tm_run_id ''overall'' ''VMT'' ''Collector'' yr) = Some (Fin 0) \<and>
         sum_list (map (\<lambda>g. snd g ! 0)
           (filter (\<lambda>g. fst (fst g) = ''Freeway'') (ft_metrics_df [l1, l2] links_taz epc))) = 200 \<and>
         sum_list (map (\<lambda>g. snd g ! 0)
           (filter (\<lambda>g. fst (fst g) = ''Non-Freeway'') (ft_metrics_df [l1, l2] links_taz epc))) = 50"
proof -
  have v1: "total_vmt l1 = 200" "Total_VMT l1 = 200"
    using assms(2,3) by (simp_all add: total_vmt_def Total_VMT_def)
  have v2: "total_vmt l2 = 50" "Total_VMT l2 = 50"
    using assms(5,6) by (simp_all add: total_vmt_def Total_VMT_def)
  have A: "map_of (facility_vmt_metrics tm_run_id yr [l1, l2] d)
           (top_level_key ''Freeway'' tm_run_id ''overall'' ''VMT'' ''Freeway'' yr) = Some (Fin 200)"
    using assms(1,4) v1 v2
    by (simp add: facility_vmt_metrics_def update_conv' top_level_key_def)
  have B: "map_of (facility_vmt_metrics tm_run_id yr [l1, l2] d)
           (top_level_key ''Non-Freeway'' tm_run_id ''overall'' ''VMT'' ''Arterial'' yr) = Some (Fin 50)"
    using assms(1,4) v1 v2
    by (simp add: facility_vmt_metrics_def update_conv' top_level_key_def)
  have C: "map_of (facility_vmt_metrics tm_run_id yr [l1, l2] d)
           (top_level_key ''Non-Freeway'' tm_run_id ''overall'' ''VMT'' ''Expressway'' yr) = Some (Fin 0)"
    using assms(1,4) v1 v2
    by (simp add: facility_vmt_metrics_def update_conv' top_level_key_def)
  have D: "map_of (facility_vmt_metrics tm_run_id yr [l1, l2] d)
           (top_level_key ''Non-Freeway'' tm_run_id ''overall'' ''VMT'' ''Collector'' yr) = Some (Fin 0)"
    using assms(1,4) v1 v2
    by (simp add: facility_vmt_metrics_def update_conv' top_level_key_def)
  let ?J = "join_network [l1, l2] links_taz epc"
  from join_network_fst[of "[l1, l2]" links_taz epc]
  obtain m1 m2 where J: "?J = [(l1, m1), (l2, m2)]"
    by (auto simp add: map_eq_Cons_conv)
  have k1: "\<exists>e t c. ft_groupby_key (l1, m1) = Some (''Freeway'', ''Freeway'', e, t, c)"
    using assms(1) by (simp add: ft_groupby_key_def ft_to_grouping_key_def)
  have k2: "\<exists>e t c. ft_groupby_key (l2, m2) = Some (''Non-Freeway'', ''Arterial'', e, t, c)"
    using assms(4) by (simp add: ft_groupby_key_def ft_to_grouping_key_def)
  have E: "sum_list (map (\<lambda>g. snd g ! 0)
           (filter (\<lambda>g. fst (fst g) = ''Freeway'') (ft_metrics_df [l1, l2] links_taz epc))) = 200"
  proof -
    have "sum_list (map (\<lambda>g. snd g ! 0)
           (filter (\<lambda>g. fst (fst g) = ''Freeway'') (ft_metrics_df [l1, l2] links_taz epc)))
        = sum_list (map (ft_value_columns ! 0)
            (filter (\<lambda>r. \<exists>k. ft_groupby_key r = Some k \<and> fst k = ''Freeway'') ?J))"
      unfolding ft_metrics_df_def
      by (rule groupby_sum_restricted_total) (simp add: ft_value_columns_def)
    also have "\<dots> = 200"
      using k1 k2 v1 by (auto simp add: J ft_value_columns_def)
    finally show ?thesis .
  qed
  have F: "sum_list (map (\<lambda>g. snd g ! 0)
           (filter (\<lambda>g. fst (fst g) = ''Non-Freeway'') (ft_metrics_df [l1, l2] links_taz epc))) = 50"
  proof -
    have "sum_list (map (\<lambda>g. snd g ! 0)
           (filter (\<lambda>g. fst (fst g) = ''Non-Freeway'') (ft_metrics_df [l1, l2] links_taz epc)))
        = sum_list (map (ft_value_columns ! 0)
            (filter (\<lambda>r. \<exists>k. ft_groupby_key r = Some k \<and> fst k = ''Non-Freeway'') ?J))"
      unfolding ft_metrics_df_def
      by (rule groupby_sum_restricted_total) (simp add: ft_value_columns_def)
    also have "\<dots> = 50"
      using k1 k2 v2 by (auto simp add: J ft_value_columns_def)
    finally show ?thesis .
  qed
  from A B C D E F show ?thesis by blast
qed


theorem vmt_by_facility_scenario_witness:
  "map_of (facility_vmt_metrics ''2035_run'' ''2035'' [scenario_freeway_link, scenario_arterial_link] [])
     (top_level_key ''Freeway'' ''2035_run'' ''overall'' ''VMT'' ''Freeway'' ''2035'') = Some (Fin 200) \<and>
   map_of (facility_vmt_metrics ''2035_run'' ''2035'' [scenario_freeway_link, scenario_arterial_link] [])
     (top_level_key ''Non-Freeway'' ''2035_run'' ''overall'' ''VMT'' ''Arterial'' ''2035'') = Some (Fin 50) \<and>
   sum_list (map (\<lambda>g. snd g ! 0) (filter (\<lambda>g. fst (fst g) = ''Freeway'')
     (ft_metrics_df [scenario_freeway_link, scenario_arterial_link] scenario_links_taz scenario_epc))) = 200 \<and>
   sum_list (map (\<lambda>g. snd g ! 0) (filter (\<lambda>g. fst (fst g) = ''Non-Freeway'')
     (ft_metrics_df [scenario_freeway_link, scenario_arterial_link] scenario_links_taz scenario_epc))) = 50"
proof -
  have h1: "ft scenario_freeway_link = 1" by (simp add: scenario_freeway_link_def)
  have h2: "volEA_tot scenario_freeway_link + volAM_tot scenario_freeway_link +
            volMD_tot scenario_freeway_link + volPM_tot scenario_freeway_link +
            volEV_tot scenario_freeway_link = 100" by (simp add: scenario_freeway_link_def)
  have h3: "distance scenario_freeway_link = 2" by (simp add: scenario_freeway_link_def)
  have h4: "ft scenario_arterial_link = 7" by (simp add: scenario_arterial_link_def)
  have h5: "volEA_tot scenario_arterial_link + volAM_tot scenario_arterial_link +
            volMD_tot scenario_arterial_link + volPM_tot scenario_arterial_link +
            volEV_tot scenario_arterial_link = 50" by (simp add: scenario_arterial_link_def)
  have h6: "distance scenario_arterial_link = 1" by (simp add: scenario_arterial_link_def)
  from vmt_by_facility_scenario[OF h1 h2 h3 h4 h5 h6, of "''2035_run''" "''2035''" "[]"
         scenario_links_taz scenario_epc]
  show ?thesis by blast
qed


section \<open>Properties of the recodes\<close>


lemma EPC_default: "EPC_Non_EPC j = ''Non-EPCs'' \<longleftrightarrow> joined_taz_epc j \<noteq> Some 1"
  by (simp add: EPC_Non_EPC_def Let_def)

lemma Tolled_default:
  "Tolled_Non_tolled j = ''Non-tolled facilities'' \<longleftrightarrow>
     (tollclass (fst j) = None \<or> (\<exists>t. tollclass (fst j) = Some t \<and> \<not> t > 700000))"
  by (auto simp add: Tolled_Non_tolled_def Let_def split: option.splits)

lemma County_default:
  "County j = ''San Francisco'' \<longleftrightarrow>
     (joined_TAZ1454 j = None \<or> (\<exists>z. joined_TAZ1454 j = Some z \<and> \<not> (190 < z \<and> z < 1455)))"
proof (cases "joined_TAZ1454 j")
  case None
  then show ?thesis by (simp add: County_def taz_between_def Let_def)
next
  case (Some z)
  then show ?thesis by (simp add: County_def taz_between_def Let_def) arith
qed

lemma County_no_range:
  assumes "\<not> taz_between 190 347 j" "\<not> taz_between 346 715 j" "\<not> taz_between 714 1040 j"
    "\<not> taz_between 1039 1211 j" "\<not> taz_between 1210 1291 j" "\<not> taz_between 1290 1318 j"
    "\<not> taz_between 1317 1404 j" "\<not> taz_between 1403 1455 j"
  shows "County j = ''San Francisco''"
  using assms by (simp add: County_def Let_def)

lemma merged_epc_match:
  assumes "m \<in> set (merge_left TAZ1454 epc_TAZ1454 links_taz epc)"
  shows "case snd m of None \<Rightarrow> \<forall>e\<in>set epc. epc_TAZ1454 e \<noteq> TAZ1454 (fst m)
         | Some e \<Rightarrow> e \<in> set epc \<and> epc_TAZ1454 e = TAZ1454 (fst m)"
  using merge_left_match[of "fst m" "snd m" TAZ1454 epc_TAZ1454 links_taz epc] assms
  by (auto split: option.splits)



text \<open>
  C10.  For every row of the joined network table: the EPC label is \<open>Non-EPCs\<close> exactly
  when the joined \<open>taz_epc\<close> is not 1, which is the case when the link has no row in the
  link-to-TAZ table or its TAZ has no row in the EPC crosswalk (the flag is then null);
  the tolling label is \<open>Non-tolled facilities\<close> exactly when \<open>tollclass\<close> is missing or
  not greater than 700000; the county is \<open>San Francisco\<close> exactly when the TAZ is missing
  or not strictly between 190 and 1455, and in particular whenever it lies in none of the
  eight listed ranges.
\<close>

theorem recodes_fall_back_to_defaults:
  assumes "j \<in> set (join_network network links_taz epc)"
  shows "(EPC_Non_EPC j = ''Non-EPCs'' \<longleftrightarrow> joined_taz_epc j \<noteq> Some 1) \<and>
         ((\<forall>t\<in>set links_taz. (lt_A t, lt_B t) \<noteq> (col_a (fst j), col_b (fst j))) \<longrightarrow>
            joined_TAZ1454 j = None \<and> joined_taz_epc j = None) \<and>
         ((\<exists>z. joined_TAZ1454 j = Some z \<and> (\<forall>e\<in>set epc. epc_TAZ1454 e \<noteq> z)) \<longrightarrow>
            joined_taz_epc j = None) \<and>
         (Tolled_Non_tolled j = ''Non-tolled facilities'' \<longleftrightarrow>
            (tollclass (fst j) = None \<or> (\<exists>t. tollclass (fst j) = Some t \<and> \<not> t > 700000))) \<and>
         (County j = ''San Francisco'' \<longleftrightarrow>
            (joined_TAZ1454 j = None \<or> (\<exists>z. joined_TAZ1454 j = Some z \<and> \<not> (190 < z \<and> z < 1455)))) \<and>
         (\<not> taz_between 190 347 j \<and> \<not> taz_between 346 715 j \<and> \<not> taz_between 714 1040 j \<and>
          \<not> taz_between 1039 1211 j \<and> \<not> taz_between 1210 1291 j \<and> \<not> taz_between 1290 1318 j \<and>
          \<not> taz_between 1317 1404 j \<and> \<not> taz_between 1403 1455 j \<longrightarrow>
            County j = ''San Francisco'')"
proof -
  from join_network_lookup assms have look:
    "case snd j of
        None \<Rightarrow> \<forall>t\<in>set links_taz. (lt_A t, lt_B t) \<noteq> (col_a (fst j), col_b (fst j))
      | Some m \<Rightarrow>
          m \<in> set (merge_left TAZ1454 epc_TAZ1454 links_taz epc) \<and>
          (lt_A (fst m), lt_B (fst m)) = (col_a (fst j), col_b (fst j)) \<and>
          (\<forall>t\<in>set links_taz. (lt_A t, lt_B t) = (col_a (fst j), col_b (fst j)) \<longrightarrow>
               linktaz_share t \<le> linktaz_share (fst m))"
    by blast
  have unmatched: "(\<forall>t\<in>set links_taz. (lt_A t, lt_B t) \<noteq> (col_a (fst j), col_b (fst j))) \<longrightarrow>
            joined_TAZ1454 j = None \<and> joined_taz_epc j = None"
  proof
    assume no: "\<forall>t\<in>set links_taz. (lt_A t, lt_B t) \<noteq> (col_a (fst j), col_b (fst j))"
    have "snd j = None"
    proof (cases "snd j")
      case None
      then show ?thesis .
    next
      case (Some m)
      with look have "m \<in> set (merge_left TAZ1454 epc_TAZ1454 links_taz epc)"
        and k: "(lt_A (fst m), lt_B (fst m)) = (col_a (fst j), col_b (fst j))" by simp_all
      then have "fst m \<in> set links_taz" using merged_fst[of links_taz epc] by force
      with no k show ?thesis by blast
    qed
    then show "joined_TAZ1454 j = None \<and> joined_taz_epc j = None"
      by (simp add: joined_TAZ1454_def joined_taz_epc_def)
  qed
  have noepc: "(\<exists>z. joined_TAZ1454 j = Some z \<and> (\<forall>e\<in>set epc. epc_TAZ1454 e \<noteq> z)) \<longrightarrow>
            joined_taz_epc j = None"
  proof
    assume "\<exists>z. joined_TAZ1454 j = Some z \<and> (\<forall>e\<in>set epc. epc_TAZ1454 e \<noteq> z)"
    then obtain z where z: "joined_TAZ1454 j = Some z" and no: "\<forall>e\<in>set epc. epc_TAZ1454 e \<noteq> z"
      by blast
    from z obtain m where m: "snd j = Some m" and tz: "TAZ1454 (fst m) = z"
      by (auto simp add: joined_TAZ1454_def)
    with look have "m \<in> set (merge_left TAZ1454 epc_TAZ1454 links_taz epc)" by simp
    from merged_epc_match[OF this] no tz have "snd m = None"
      by (cases "snd m") auto
    with m show "joined_taz_epc j = None" by (simp add: joined_taz_epc_def)
  qed
  from unmatched noepc EPC_default[of j] Tolled_default[of j] County_default[of j] County_no_range[of j]
  show ?thesis by blast
qed


theorem recodes_fall_back_to_defaults_witness:
  "EPC_Non_EPC (scenario_arterial_link, None) = ''Non-EPCs'' \<and>
   Tolled_Non_tolled (scenario_arterial_link, None) = ''Non-tolled facilities'' \<and>
   County (scenario_arterial_link, None) = ''San Francisco''"
proof -
  have mem: "(scenario_arterial_link, None)
               \<in> set (join_network [scenario_freeway_link, scenario_arterial_link]
                        scenario_links_taz scenario_epc)"
    unfolding join_network_def tm_network_links_with_epc_df_scenario
    by (simp add: merge_left_def scenario_freeway_link_def scenario_arterial_link_def)
  from recodes_fall_back_to_defaults[OF mem]
  have "(EPC_Non_EPC (scenario_arterial_link, None) = ''Non-EPCs'' \<longleftrightarrow>
           joined_taz_epc (scenario_arterial_link, None) \<noteq> Some 1) \<and>
        (Tolled_Non_tolled (scenario_arterial_link, None) = ''Non-tolled facilities'' \<longleftrightarrow>
           (tollclass (fst (scenario_arterial_link, None::link_epc option)) = None \<or>
            (\<exists>t. tollclass (fst (scenario_arterial_link, None::link_epc option)) = Some t \<and> \<not> t > 700000))) \<and>
        (County (scenario_arterial_link, None) = ''San Francisco'' \<longleftrightarrow>
           (joined_TAZ1454 (scenario_arterial_link, None) = None \<or>
            (\<exists>z. joined_TAZ1454 (scenario_arterial_link, None) = Some z \<and> \<not> (190 < z \<and> z < 1455))))"
    by blast
  then show ?thesis
    by (simp add: joined_taz_epc_def joined_TAZ1454_def scenario_arterial_link_def)
qed


section \<open>Properties of the long form\<close>


lemma length_concat_uniform:
  "(\<forall>xs\<in>set xss. length xs = n) \<Longrightarrow> length (concat xss) = length xss * n"
  by (induction xss) auto

lemma nth_concat_uniform:
  "(\<forall>xs\<in>set xss. length xs = n) \<Longrightarrow> j < length xss \<Longrightarrow> i < n \<Longrightarrow>
     concat xss ! (j * n + i) = xss ! j ! i"
proof (induction xss arbitrary: j)
  case Nil
  then show ?case by simp
next
  case (Cons xs xss)
  show ?case
  proof (cases j)
    case 0
    with Cons.prems show ?thesis by (simp add: nth_append)
  next
    case (Suc j')
    with Cons.prems have "concat xss ! (j' * n + i) = xss ! j' ! i"
      by (intro Cons.IH) auto
    moreover have "Suc j' * n + i = n + (j' * n + i)" by simp
    ultimately show ?thesis using Suc Cons.prems by (simp add: nth_append)
  qed
qed

lemma melt_data:
  assumes "set id_vars \<subseteq> set (columns f)"
  shows "melt id_vars var_name f =
           Inr \<lparr>columns = id_vars @ [var_name, ''value''],
                data = concat (map (\<lambda>c. map (long_row id_vars f c) (data f)) (value_vars id_vars f))\<rparr>"
  using assms by (auto simp add: melt_def list_all_iff)

lemma melt_nth:
  assumes "q < length (value_vars id_vars f) * length (data f)"
  shows "concat (map (\<lambda>c. map (long_row id_vars f c) (data f)) (value_vars id_vars f)) ! q
           = long_row id_vars f (value_vars id_vars f ! (q div length (data f)))
               (data f ! (q mod length (data f)))"
proof -
  let ?n = "length (data f)" and ?vs = "value_vars id_vars f"
  let ?xss = "map (\<lambda>c. map (long_row id_vars f c) (data f)) ?vs"
  from assms have npos: "0 < ?n" by (cases "?n = 0") auto
  have j: "q div ?n < length ?xss"
    using assms npos by (simp add: less_mult_imp_div_less)
  have i: "q mod ?n < ?n" using npos by simp
  have u: "\<forall>xs\<in>set ?xss. length xs = ?n" by auto
  have "concat ?xss ! (q div ?n * ?n + q mod ?n) = ?xss ! (q div ?n) ! (q mod ?n)"
    by (rule nth_concat_uniform[OF u j i])
  then show ?thesis using j i by simp
qed

lemma long_row_desc: "long_row id_vars f c row ! length id_vars = Str c"
  by (simp add: long_row_def nth_append)

lemma value_vars_set: "set (value_vars id_vars f) = set (columns f) - set id_vars"
  by (auto simp add: value_vars_def)

lemma value_vars_distinct: "distinct (columns f) \<Longrightarrow> distinct (value_vars id_vars f)"
  by (simp add: value_vars_def)

lemma melt_once:
  assumes d: "distinct (columns f)" and i: "i < length (data f)"
      and c: "c \<in> set (columns f) - set id_vars"
  shows "\<exists>p<length (value_vars id_vars f) * length (data f).
           p mod length (data f) = i \<and>
           concat (map (\<lambda>c. map (long_row id_vars f c) (data f)) (value_vars id_vars f)) ! p
             = long_row id_vars f c (data f ! i) \<and>
           (\<forall>q<length (value_vars id_vars f) * length (data f).
              q mod length (data f) = i \<and>
              concat (map (\<lambda>c. map (long_row id_vars f c) (data f)) (value_vars id_vars f)) ! q
                ! length id_vars = Str c \<longrightarrow> q = p)"
proof -
  let ?n = "length (data f)" and ?vs = "value_vars id_vars f"
  let ?L = "concat (map (\<lambda>c. map (long_row id_vars f c) (data f)) ?vs)"
  from c obtain j where j: "j < length ?vs" "?vs ! j = c"
    by (auto simp add: value_vars_set[symmetric] in_set_conv_nth)
  let ?p = "j * ?n + i"
  have plt: "?p < length ?vs * ?n"
  proof -
    have "?p < j * ?n + ?n" using i by simp
    also have "\<dots> = Suc j * ?n" by simp
    also have "\<dots> \<le> length ?vs * ?n" using j(1) by (intro mult_le_mono1) simp
    finally show ?thesis .
  qed
  have pm: "?p mod ?n = i" using i by simp
  have pd: "?p div ?n = j"
  proof -
    from i have "?n \<noteq> 0" by auto
    then have "?p div ?n = j + i div ?n" by (rule div_mult_self3)
    with i show ?thesis by simp
  qed
  have row: "?L ! ?p = long_row id_vars f c (data f ! i)"
    using melt_nth[OF plt] j by (simp only: pm pd)
  have uniq: "\<forall>q<length ?vs * ?n. q mod ?n = i \<and> ?L ! q ! length id_vars = Str c \<longrightarrow> q = ?p"
  proof (intro allI impI)
    fix q assume q: "q < length ?vs * ?n" and h: "q mod ?n = i \<and> ?L ! q ! length id_vars = Str c"
    from i have npos: "0 < ?n" by auto
    have qj: "q div ?n < length ?vs" using q npos by (simp add: less_mult_imp_div_less)
    from h melt_nth[OF q] have "?vs ! (q div ?n) = c" by (simp add: long_row_desc)
    with j qj value_vars_distinct[OF d, of id_vars] have "q div ?n = j"
      by (metis nth_eq_iff_index_eq)
    moreover have "q = q div ?n * ?n + q mod ?n" by simp
    ultimately show "q = ?p" using h by simp
  qed
  from plt pm row uniq show ?thesis by blast
qed


lemma safe2_melt_frame:
  "distinct (columns (concat_frames (auto_times_frame a) (ft_metrics_frame g))) \<and>
   set safe2_id_vars \<subseteq> set (columns (concat_frames (auto_times_frame a) (ft_metrics_frame g))) \<and>
   value_vars safe2_id_vars (concat_frames (auto_times_frame a) (ft_metrics_frame g))
     = [''VMT'', ''VHT'', ''Total VMT'', ''EA VMT'', ''AM VMT'', ''MD VMT'', ''PM VMT'', ''EV VMT'']"
  by (simp add: concat_frames_def auto_times_frame_def ft_metrics_frame_def safe2_id_vars_def
      value_vars_def Let_def)


lemma cell_at_nth:
  assumes "distinct cols" and "length row = length cols" and "k < length cols"
  shows "cell_at cols row (cols ! k) = row ! k"
proof -
  have "map_of (zip cols row) (cols ! k) = Some (row ! k)"
    using assms by (intro map_of_zip_nth) simp_all
  then show ?thesis by (simp add: cell_at_def)
qed

lemma long_row_cells:
  assumes d: "distinct (columns f)" and l: "length row = length (columns f)"
      and k: "k < length (columns f)"
  shows "length (long_row id_vars f (columns f ! k) row) = length id_vars + 2"
    and "\<forall>a<length id_vars. \<forall>b<length (columns f). id_vars ! a = columns f ! b \<longrightarrow>
            long_row id_vars f (columns f ! k) row ! a = row ! b"
    and "long_row id_vars f (columns f ! k) row ! length id_vars = Str (columns f ! k)"
    and "long_row id_vars f (columns f ! k) row ! Suc (length id_vars) = row ! k"
proof -
  show "length (long_row id_vars f (columns f ! k) row) = length id_vars + 2"
    by (simp add: long_row_def)
  show "long_row id_vars f (columns f ! k) row ! length id_vars = Str (columns f ! k)"
    by (rule long_row_desc)
  show "long_row id_vars f (columns f ! k) row ! Suc (length id_vars) = row ! k"
    using cell_at_nth[OF d l k] by (simp add: long_row_def nth_append)
  show "\<forall>a<length id_vars. \<forall>b<length (columns f). id_vars ! a = columns f ! b \<longrightarrow>
            long_row id_vars f (columns f ! k) row ! a = row ! b"
  proof (intro allI impI)
    fix a b assume a: "a < length id_vars" and b: "b < length (columns f)"
      and e: "id_vars ! a = columns f ! b"
    have "long_row id_vars f (columns f ! k) row ! a = cell_at (columns f) row (id_vars ! a)"
      using a by (simp add: long_row_def nth_append)
    with e cell_at_nth[OF d l b] show "long_row id_vars f (columns f ! k) row ! a = row ! b"
      by simp
  qed
qed

lemma concat_frames_rows:
  "\<forall>row\<in>set (data (concat_frames f g)). length row = length (columns (concat_frames f g))"
  by (auto simp add: concat_frames_def Let_def)

lemma example_wide_frame_columns:
  "columns example_wide_frame =
     [''Household/Non-Household'', ''Income Level/Travel Mode'', ''VMT'', ''VHT'',
      ''Freeway/Non-Freeway'', ''Facility Type Definition'', ''EPC/Non-EPC'',
      ''Tolled/Non-tolled Facilities'', ''County'',
      ''Total VMT'', ''EA VMT'', ''AM VMT'', ''MD VMT'', ''PM VMT'', ''EV VMT'']"
  by (simp add: example_wide_frame_def concat_frames_def auto_times_frame_def ft_metrics_frame_def
      Let_def)

lemma example_wide_frame_data:
  "data example_wide_frame =
     [[Str ''Household'', Str ''inc1'', Num 10, Num 2,
       Null, Null, Null, Null, Null, Null, Null, Null, Null, Null, Null]]"
  by (simp add: example_wide_frame_def concat_frames_def auto_times_frame_def ft_metrics_frame_def
      Let_def cell_at_def)

text \<open>
  C8.  For a frame with distinct column names that has all the id columns, and whose rows
  have one cell per column, \<open>melt\<close> returns a long frame with one row for every pair of
  a non-id column and an input row (their number is the number of non-id columns times
  the number of input rows).  For input row \<open>i\<close> and the non-id column at position \<open>k\<close>
  there is exactly one long row \<open>p\<close> that comes from row \<open>i\<close> and names that column: it
  has the id cells of row \<open>i\<close> (cell \<open>a\<close> of the long row is cell \<open>b\<close> of row \<open>i\<close>
  whenever id column \<open>a\<close> is the frame's column \<open>b\<close>), then the column's name, then cell
  \<open>k\<close> of row \<open>i\<close>.  Conversely every long row names a non-id column and holds the cell
  of that column of the input row it comes from, so nothing else is emitted.  The frame
  melted at line 200 always meets the three assumptions.
\<close>

theorem melt_emits_each_value_column_once:
  assumes "distinct (columns f)" and "set id_vars \<subseteq> set (columns f)"
      and "\<forall>row\<in>set (data f). length row = length (columns f)"
  shows "(\<exists>long. melt id_vars var_name f = Inr long \<and>
           columns long = id_vars @ [var_name, ''value''] \<and>
           length (data long) = length (filter (\<lambda>c. c \<notin> set id_vars) (columns f)) * length (data f) \<and>
           (\<forall>i<length (data f). \<forall>k<length (columns f). columns f ! k \<notin> set id_vars \<longrightarrow>
              (\<exists>p<length (data long).
                 p mod length (data f) = i \<and>
                 length (data long ! p) = length id_vars + 2 \<and>
                 (\<forall>a<length id_vars. \<forall>b<length (columns f). id_vars ! a = columns f ! b \<longrightarrow>
                    data long ! p ! a = data f ! i ! b) \<and>
                 data long ! p ! length id_vars = Str (columns f ! k) \<and>
                 data long ! p ! Suc (length id_vars) = data f ! i ! k \<and>
                 (\<forall>q<length (data long).
                    q mod length (data f) = i \<and> data long ! q ! length id_vars = Str (columns f ! k)
                      \<longrightarrow> q = p))) \<and>
           (\<forall>q<length (data long). \<exists>k<length (columns f).
              columns f ! k \<notin> set id_vars \<and>
              data long ! q ! length id_vars = Str (columns f ! k) \<and>
              data long ! q ! Suc (length id_vars) = data f ! (q mod length (data f)) ! k)) \<and>
         distinct (columns (concat_frames (auto_times_frame a) (ft_metrics_frame g))) \<and>
         set safe2_id_vars \<subseteq> set (columns (concat_frames (auto_times_frame a) (ft_metrics_frame g))) \<and>
         (\<forall>row\<in>set (data (concat_frames (auto_times_frame a) (ft_metrics_frame g))).
            length row = length (columns (concat_frames (auto_times_frame a) (ft_metrics_frame g))))"
proof -
  let ?n = "length (data f)" and ?vs = "value_vars id_vars f"
  let ?L = "concat (map (\<lambda>c. map (long_row id_vars f c) (data f)) (value_vars id_vars f))"
  let ?long = "\<lparr>columns = id_vars @ [var_name, ''value''], data = ?L\<rparr>"
  have len: "length ?L = length ?vs * ?n"
    by (subst length_concat_uniform[where n = "length (data f)"]) auto
  have m: "melt id_vars var_name f = Inr ?long" by (rule melt_data[OF assms(2)])
  have rowlen: "\<And>i. i < ?n \<Longrightarrow> length (data f ! i) = length (columns f)"
    using assms(3) by simp
  have once: "\<forall>i<length (data f). \<forall>k<length (columns f). columns f ! k \<notin> set id_vars \<longrightarrow>
              (\<exists>p<length (data ?long).
                 p mod length (data f) = i \<and>
                 length (data ?long ! p) = length id_vars + 2 \<and>
                 (\<forall>a<length id_vars. \<forall>b<length (columns f). id_vars ! a = columns f ! b \<longrightarrow>
                    data ?long ! p ! a = data f ! i ! b) \<and>
                 data ?long ! p ! length id_vars = Str (columns f ! k) \<and>
                 data ?long ! p ! Suc (length id_vars) = data f ! i ! k \<and>
                 (\<forall>q<length (data ?long).
                    q mod length (data f) = i \<and> data ?long ! q ! length id_vars = Str (columns f ! k)
                      \<longrightarrow> q = p))"
  proof (intro allI impI)
    fix i k assume i: "i < ?n" and k: "k < length (columns f)" and nid: "columns f ! k \<notin> set id_vars"
    from k nid have c: "columns f ! k \<in> set (columns f) - set id_vars" by simp
    from melt_once[OF assms(1) i c] obtain p where
      p: "p < length ?vs * ?n" "p mod ?n = i"
         "?L ! p = long_row id_vars f (columns f ! k) (data f ! i)"
         "\<forall>q<length ?vs * ?n. q mod ?n = i \<and> ?L ! q ! length id_vars = Str (columns f ! k) \<longrightarrow> q = p"
      by blast
    note cells = long_row_cells[OF assms(1) rowlen[OF i] k, of id_vars]
    have pl: "p < length (data ?long)" using p(1) by (simp add: len)
    have rowp: "data ?long ! p = long_row id_vars f (columns f ! k) (data f ! i)"
      using p(3) by simp
    have uq: "\<forall>q<length (data ?long).
                q mod length (data f) = i \<and> data ?long ! q ! length id_vars = Str (columns f ! k)
                  \<longrightarrow> q = p"
      unfolding frame.select_convs len by (rule p(4))
    show "\<exists>p<length (data ?long).
                 p mod length (data f) = i \<and>
                 length (data ?long ! p) = length id_vars + 2 \<and>
                 (\<forall>a<length id_vars. \<forall>b<length (columns f). id_vars ! a = columns f ! b \<longrightarrow>
                    data ?long ! p ! a = data f ! i ! b) \<and>
                 data ?long ! p ! length id_vars = Str (columns f ! k) \<and>
                 data ?long ! p ! Suc (length id_vars) = data f ! i ! k \<and>
                 (\<forall>q<length (data ?long).
                    q mod length (data f) = i \<and> data ?long ! q ! length id_vars = Str (columns f ! k)
                      \<longrightarrow> q = p)"
    proof (intro exI[of _ p] conjI)
      show "p < length (data ?long)" by (rule pl)
      show "p mod length (data f) = i" by (rule p(2))
      show "length (data ?long ! p) = length id_vars + 2" unfolding rowp by (rule cells(1))
      show "\<forall>a<length id_vars. \<forall>b<length (columns f). id_vars ! a = columns f ! b \<longrightarrow>
                    data ?long ! p ! a = data f ! i ! b" unfolding rowp by (rule cells(2))
      show "data ?long ! p ! length id_vars = Str (columns f ! k)" unfolding rowp by (rule cells(3))
      show "data ?long ! p ! Suc (length id_vars) = data f ! i ! k" unfolding rowp by (rule cells(4))
      show "\<forall>q<length (data ?long).
                    q mod length (data f) = i \<and> data ?long ! q ! length id_vars = Str (columns f ! k)
                      \<longrightarrow> q = p" by (rule uq)
    qed
  qed
  have every: "\<forall>q<length (data ?long). \<exists>k<length (columns f).
              columns f ! k \<notin> set id_vars \<and>
              data ?long ! q ! length id_vars = Str (columns f ! k) \<and>
              data ?long ! q ! Suc (length id_vars) = data f ! (q mod length (data f)) ! k"
  proof (intro allI impI)
    fix q assume "q < length (data ?long)"
    then have q: "q < length ?vs * ?n" by (simp add: len)
    then have npos: "0 < ?n" by (cases "?n = 0") auto
    have j: "q div ?n < length ?vs" using q npos by (simp add: less_mult_imp_div_less)
    then have "?vs ! (q div ?n) \<in> set ?vs" by simp
    then have "?vs ! (q div ?n) \<in> set (columns f) - set id_vars" by (simp only: value_vars_set)
    then obtain k where k: "k < length (columns f)" "columns f ! k = ?vs ! (q div ?n)"
      "columns f ! k \<notin> set id_vars"
      by (auto simp add: in_set_conv_nth)
    have i: "q mod ?n < ?n" using npos by simp
    note cells = long_row_cells[OF assms(1) rowlen[OF i] k(1), of id_vars]
    have rowq: "data ?long ! q = long_row id_vars f (columns f ! k) (data f ! (q mod ?n))"
      using melt_nth[OF q] k(2) by simp
    show "\<exists>k<length (columns f).
              columns f ! k \<notin> set id_vars \<and>
              data ?long ! q ! length id_vars = Str (columns f ! k) \<and>
              data ?long ! q ! Suc (length id_vars) = data f ! (q mod length (data f)) ! k"
    proof (intro exI[of _ k] conjI)
      show "k < length (columns f)" by (rule k(1))
      show "columns f ! k \<notin> set id_vars" by (rule k(3))
      show "data ?long ! q ! length id_vars = Str (columns f ! k)" unfolding rowq by (rule cells(3))
      show "data ?long ! q ! Suc (length id_vars) = data f ! (q mod length (data f)) ! k"
        unfolding rowq by (rule cells(4))
    qed
  qed
  have main: "\<exists>long. melt id_vars var_name f = Inr long \<and>
           columns long = id_vars @ [var_name, ''value''] \<and>
           length (data long) = length (filter (\<lambda>c. c \<notin> set id_vars) (columns f)) * length (data f) \<and>
           (\<forall>i<length (data f). \<forall>k<length (columns f). columns f ! k \<notin> set id_vars \<longrightarrow>
              (\<exists>p<length (data long).
                 p mod length (data f) = i \<and>
                 length (data long ! p) = length id_vars + 2 \<and>
                 (\<forall>a<length id_vars. \<forall>b<length (columns f). id_vars ! a = columns f ! b \<longrightarrow>
                    data long ! p ! a = data f ! i ! b) \<and>
                 data long ! p ! length id_vars = Str (columns f ! k) \<and>
                 data long ! p ! Suc (length id_vars) = data f ! i ! k \<and>
                 (\<forall>q<length (data long).
                    q mod length (data f) = i \<and> data long ! q ! length id_vars = Str (columns f ! k)
                      \<longrightarrow> q = p))) \<and>
           (\<forall>q<length (data long). \<exists>k<length (columns f).
              columns f ! k \<notin> set id_vars \<and>
              data long ! q ! length id_vars = Str (columns f ! k) \<and>
              data long ! q ! Suc (length id_vars) = data f ! (q mod length (data f)) ! k)"
  proof (intro exI[of _ ?long] conjI)
    show "melt id_vars var_name f = Inr ?long" by (rule m)
    show "columns ?long = id_vars @ [var_name, ''value'']" by simp
    show "length (data ?long) = length (filter (\<lambda>c. c \<notin> set id_vars) (columns f)) * length (data f)"
      using len by (simp add: value_vars_def)
    show "\<forall>i<length (data f). \<forall>k<length (columns f). columns f ! k \<notin> set id_vars \<longrightarrow>
              (\<exists>p<length (data ?long).
                 p mod length (data f) = i \<and>
                 length (data ?long ! p) = length id_vars + 2 \<and>
                 (\<forall>a<length id_vars. \<forall>b<length (columns f). id_vars ! a = columns f ! b \<longrightarrow>
                    data ?long ! p ! a = data f ! i ! b) \<and>
                 data ?long ! p ! length id_vars = Str (columns f ! k) \<and>
                 data ?long ! p ! Suc (length id_vars) = data f ! i ! k \<and>
                 (\<forall>q<length (data ?long).
                    q mod length (data f) = i \<and> data ?long ! q ! length id_vars = Str (columns f ! k)
                      \<longrightarrow> q = p))" by (rule once)
    show "\<forall>q<length (data ?long). \<exists>k<length (columns f).
              columns f ! k \<notin> set id_vars \<and>
              data ?long ! q ! length id_vars = Str (columns f ! k) \<and>
              data ?long ! q ! Suc (length id_vars) = data f ! (q mod length (data f)) ! k"
      by (rule every)
  qed
  note sf = safe2_melt_frame[of a g]
  from main conjunct1[OF sf] conjunct1[OF conjunct2[OF sf]]
       concat_frames_rows[of "auto_times_frame a" "ft_metrics_frame g"]
  show ?thesis by - (intro conjI, assumption+)
qed

theorem melt_emits_each_value_column_once_witness:
  "\<exists>long. melt safe2_id_vars ''Metric Description'' example_wide_frame = Inr long \<and>
        columns long = safe2_id_vars @ [''Metric Description'', ''value''] \<and>
        length (data long) = 8 \<and>
        (\<exists>p<8. length (data long ! p) = 9 \<and>
                data long ! p ! 5 = Str ''Household'' \<and> data long ! p ! 6 = Str ''inc1'' \<and>
                data long ! p ! 7 = Str ''VMT'' \<and> data long ! p ! 8 = Num 10 \<and>
                (\<forall>q<8. data long ! q ! 7 = Str ''VMT'' \<longrightarrow> q = p))"
proof -
  have h1: "distinct (columns example_wide_frame)" by (simp add: example_wide_frame_columns)
  have h2: "set safe2_id_vars \<subseteq> set (columns example_wide_frame)"
    by (simp add: example_wide_frame_columns safe2_id_vars_def)
  have h3: "\<forall>row\<in>set (data example_wide_frame). length row = length (columns example_wide_frame)"
    by (simp add: example_wide_frame_columns example_wide_frame_data)
  have v: "length (filter (\<lambda>c. c \<notin> set safe2_id_vars) (columns example_wide_frame)) = 8"
    by (simp add: example_wide_frame_columns safe2_id_vars_def)
  have idl: "length safe2_id_vars = 7" by (simp add: safe2_id_vars_def)
  have id5: "safe2_id_vars ! 5 = columns example_wide_frame ! 0"
    by (simp add: example_wide_frame_columns safe2_id_vars_def)
  have id6: "safe2_id_vars ! 6 = columns example_wide_frame ! 1"
    by (simp add: example_wide_frame_columns safe2_id_vars_def)
  have c2: "columns example_wide_frame ! 2 = ''VMT''" by (simp add: example_wide_frame_columns)
  have nid: "columns example_wide_frame ! 2 \<notin> set safe2_id_vars"
    by (simp add: c2 safe2_id_vars_def)
  have i0: "0 < length (data example_wide_frame)" by (simp add: example_wide_frame_data)
  have n1: "length (data example_wide_frame) = 1" by (simp add: example_wide_frame_data)
  have k0: "0 < length (columns example_wide_frame)" by (simp add: example_wide_frame_columns)
  have k1: "1 < length (columns example_wide_frame)" by (simp add: example_wide_frame_columns)
  have k2: "2 < length (columns example_wide_frame)" by (simp add: example_wide_frame_columns)
  have d00: "data example_wide_frame ! 0 ! 0 = Str ''Household''" by (simp add: example_wide_frame_data)
  have d01: "data example_wide_frame ! 0 ! 1 = Str ''inc1''" by (simp add: example_wide_frame_data)
  have d02: "data example_wide_frame ! 0 ! 2 = Num 10" by (simp add: example_wide_frame_data)
  note T = melt_emits_each_value_column_once[OF h1 h2 h3, of "''Metric Description''"]
  from conjunct1[OF T] obtain long where
        l1: "melt safe2_id_vars ''Metric Description'' example_wide_frame = Inr long"
    and l2: "columns long = safe2_id_vars @ [''Metric Description'', ''value'']"
    and l3: "length (data long) = length (filter (\<lambda>c. c \<notin> set safe2_id_vars) (columns example_wide_frame)) * length (data example_wide_frame)"
    and l4: "\<forall>i<length (data example_wide_frame). \<forall>k<length (columns example_wide_frame). columns example_wide_frame ! k \<notin> set safe2_id_vars \<longrightarrow>
              (\<exists>p<length (data long).
                 p mod length (data example_wide_frame) = i \<and>
                 length (data long ! p) = length safe2_id_vars + 2 \<and>
                 (\<forall>a<length safe2_id_vars. \<forall>b<length (columns example_wide_frame). safe2_id_vars ! a = columns example_wide_frame ! b \<longrightarrow>
                    data long ! p ! a = data example_wide_frame ! i ! b) \<and>
                 data long ! p ! length safe2_id_vars = Str (columns example_wide_frame ! k) \<and>
                 data long ! p ! Suc (length safe2_id_vars) = data example_wide_frame ! i ! k \<and>
                 (\<forall>q<length (data long).
                    q mod length (data example_wide_frame) = i \<and> data long ! q ! length safe2_id_vars = Str (columns example_wide_frame ! k)
                      \<longrightarrow> q = p))"
    by (elim exE conjE) (rule that)
  from l3 have n: "length (data long) = 8" by (simp only: v n1)
  from l4[rule_format, OF i0 k2 nid] obtain p where
        p1: "p < length (data long)"
    and p2: "length (data long ! p) = length safe2_id_vars + 2"
    and p3: "\<forall>a<length safe2_id_vars. \<forall>b<length (columns example_wide_frame). safe2_id_vars ! a = columns example_wide_frame ! b \<longrightarrow>
                    data long ! p ! a = data example_wide_frame ! 0 ! b"
    and p4: "data long ! p ! length safe2_id_vars = Str (columns example_wide_frame ! 2)"
    and p5: "data long ! p ! Suc (length safe2_id_vars) = data example_wide_frame ! 0 ! 2"
    and p6: "\<forall>q<length (data long).
                    q mod length (data example_wide_frame) = 0 \<and> data long ! q ! length safe2_id_vars = Str (columns example_wide_frame ! 2)
                      \<longrightarrow> q = p"
    by (elim exE conjE) (rule that)
  have a5: "data long ! p ! 5 = Str ''Household''"
  proof -
    have "(5::nat) < length safe2_id_vars" by (simp add: idl)
    from p3[rule_format, OF this k0 id5] show ?thesis by (simp only: d00)
  qed
  have a6: "data long ! p ! 6 = Str ''inc1''"
  proof -
    have "(6::nat) < length safe2_id_vars" by (simp add: idl)
    from p3[rule_format, OF this k1 id6] show ?thesis by (simp only: d01)
  qed
  have a7: "data long ! p ! 7 = Str ''VMT''" using p4 by (simp only: idl c2)
  have a8: "data long ! p ! 8 = Num 10" using p5 by (simp add: idl d02)
  have a9: "length (data long ! p) = 9" using p2 by (simp add: idl)
  have p8: "p < 8" using p1 by (simp only: n)
  have u: "\<forall>q<8. data long ! q ! 7 = Str ''VMT'' \<longrightarrow> q = p"
  proof (intro allI impI)
    fix q :: nat assume q: "q < 8" and e: "data long ! q ! 7 = Str ''VMT''"
    have q1: "q < length (data long)" using q by (simp only: n)
    have q2: "q mod length (data example_wide_frame) = 0" by (simp add: n1)
    have q3: "data long ! q ! length safe2_id_vars = Str (columns example_wide_frame ! 2)"
      using e by (simp only: idl c2)
    from p6[rule_format, OF q1 conjI[OF q2 q3]] show "q = p" .
  qed
  have "\<exists>p<8. length (data long ! p) = 9 \<and>
                data long ! p ! 5 = Str ''Household'' \<and> data long ! p ! 6 = Str ''inc1'' \<and>
                data long ! p ! 7 = Str ''VMT'' \<and> data long ! p ! 8 = Num 10 \<and>
                (\<forall>q<8. data long ! q ! 7 = Str ''VMT'' \<longrightarrow> q = p)"
    using p8 a9 a5 a6 a7 a8 u by (intro exI[of _ p] conjI)
  with l1 l2 n show ?thesis by (intro exI[of _ long] conjI)
qed


section \<open>Properties of the skip-if-exists flag\<close>


lemma os_path_join_inj: "os_path_join a b = os_path_join a b' \<longleftrightarrow> b = b'"
  by (simp add: os_path_join_def)

lemma ngfs_out_filename_inj: "inj_on (ngfs_out_filename cwd) A"
  by (rule inj_onI) (simp add: ngfs_out_filename_def os_path_join_inj)

lemma safe2_out_filename_inj: "inj_on (safe2_out_filename cwd) A"
  by (rule inj_onI) (simp add: safe2_out_filename_def os_path_join_inj)

lemma run_batch_ok:
  assumes "distinct runs" and "inj_on out (set runs)"
      and "\<forall>r\<in>set runs. \<not> (skip \<and> files w (out r) \<noteq> None) \<longrightarrow> process r = Inr (rows r)"
  shows "\<exists>w'. run_batch skip out process runs w = Inr w' \<and>
           (\<forall>r\<in>set runs. files w' (out r) =
                (if skip \<and> files w (out r) \<noteq> None then files w (out r) else Some (rows r))) \<and>
           (\<forall>f. f \<notin> out ` set runs \<longrightarrow> files w' f = files w f) \<and>
           log w' = log w @ concat (map (\<lambda>r. if skip \<and> files w (out r) \<noteq> None
                                              then [skipping_msg r (out r)]
                                              else [processing_msg r, wrote_msg (out r)]) runs)"
  using assms
proof (induction runs arbitrary: w)
  case Nil
  then show ?case by simp
next
  case (Cons r rs)
  from Cons.prems have d: "distinct rs" and inj: "inj_on out (set rs)"
    and other: "\<forall>r'\<in>set rs. out r' \<noteq> out r"
    by (auto simp add: inj_on_def)
  then have notin: "out r \<notin> out ` set rs" by auto
  show ?case
  proof (cases "skip \<and> files w (out r) \<noteq> None")
    case True
    let ?w1 = "w\<lparr>log := log w @ [skipping_msg r (out r)]\<rparr>"
    have h: "\<forall>r'\<in>set rs. \<not> (skip \<and> files ?w1 (out r') \<noteq> None) \<longrightarrow> process r' = Inr (rows r')"
      using Cons.prems(3) by simp
    from Cons.IH[OF d inj h] obtain w' where
      run: "run_batch skip out process rs ?w1 = Inr w'" and
      fl: "\<forall>r'\<in>set rs. files w' (out r') =
              (if skip \<and> files ?w1 (out r') \<noteq> None then files ?w1 (out r') else Some (rows r'))" and
      ot: "\<forall>f. f \<notin> out ` set rs \<longrightarrow> files w' f = files ?w1 f" and
      lg: "log w' = log ?w1 @ concat (map (\<lambda>r. if skip \<and> files ?w1 (out r) \<noteq> None
                                              then [skipping_msg r (out r)]
                                              else [processing_msg r, wrote_msg (out r)]) rs)"
      by blast
    have 1: "run_batch skip out process (r # rs) w = Inr w'" using True run by simp
    have 2: "\<forall>r'\<in>set (r # rs). files w' (out r') =
                (if skip \<and> files w (out r') \<noteq> None then files w (out r') else Some (rows r'))"
      using True fl ot notin by auto
    have 3: "\<forall>f. f \<notin> out ` set (r # rs) \<longrightarrow> files w' f = files w f"
      using ot by auto
    have 4: "log w' = log w @ concat (map (\<lambda>r. if skip \<and> files w (out r) \<noteq> None
                                              then [skipping_msg r (out r)]
                                              else [processing_msg r, wrote_msg (out r)]) (r # rs))"
      using True lg by simp
    from 1 2 3 4 show ?thesis by blast
  next
    case False
    with Cons.prems(3) have pr: "process r = Inr (rows r)" by simp
    let ?w1 = "w\<lparr>files := (files w)(out r \<mapsto> rows r),
                  log := log w @ [processing_msg r, wrote_msg (out r)]\<rparr>"
    have same: "\<forall>r'\<in>set rs. files ?w1 (out r') = files w (out r')"
      using other by simp
    have h: "\<forall>r'\<in>set rs. \<not> (skip \<and> files ?w1 (out r') \<noteq> None) \<longrightarrow> process r' = Inr (rows r')"
      using Cons.prems(3) same by simp
    from Cons.IH[OF d inj h] obtain w' where
      run: "run_batch skip out process rs ?w1 = Inr w'" and
      fl: "\<forall>r'\<in>set rs. files w' (out r') =
              (if skip \<and> files ?w1 (out r') \<noteq> None then files ?w1 (out r') else Some (rows r'))" and
      ot: "\<forall>f. f \<notin> out ` set rs \<longrightarrow> files w' f = files ?w1 f" and
      lg: "log w' = log ?w1 @ concat (map (\<lambda>r. if skip \<and> files ?w1 (out r) \<noteq> None
                                              then [skipping_msg r (out r)]
                                              else [processing_msg r, wrote_msg (out r)]) rs)"
      by blast
    have 1: "run_batch skip out process (r # rs) w = Inr w'" using False pr run by auto
    have head: "files w' (out r) = Some (rows r)" using ot notin by simp
    have tail: "\<forall>r'\<in>set rs. files w' (out r') =
                (if skip \<and> files w (out r') \<noteq> None then files w (out r') else Some (rows r'))"
    proof
      fix r' assume r': "r' \<in> set rs"
      with same have e: "files ?w1 (out r') = files w (out r')" by blast
      from fl r' have "files w' (out r') =
              (if skip \<and> files ?w1 (out r') \<noteq> None then files ?w1 (out r') else Some (rows r'))"
        by blast
      then show "files w' (out r') =
                (if skip \<and> files w (out r') \<noteq> None then files w (out r') else Some (rows r'))"
        by (simp only: e)
    qed
    have 2: "\<forall>r'\<in>set (r # rs). files w' (out r') =
                (if skip \<and> files w (out r') \<noteq> None then files w (out r') else Some (rows r'))"
      using False head tail by auto
    have 3: "\<forall>f. f \<notin> out ` set (r # rs) \<longrightarrow> files w' f = files w f"
      using ot by auto
    have mapeq: "map (\<lambda>r. if skip \<and> files ?w1 (out r) \<noteq> None
                                              then [skipping_msg r (out r)]
                                              else [processing_msg r, wrote_msg (out r)]) rs
               = map (\<lambda>r. if skip \<and> files w (out r) \<noteq> None
                                              then [skipping_msg r (out r)]
                                              else [processing_msg r, wrote_msg (out r)]) rs"
      by (rule map_cong) (use other in simp_all)
    have 4: "log w' = log w @ concat (map (\<lambda>r. if skip \<and> files w (out r) \<noteq> None
                                              then [skipping_msg r (out r)]
                                              else [processing_msg r, wrote_msg (out r)]) (r # rs))"
      using False lg by (simp only: mapeq) simp
    from 1 2 3 4 show ?thesis by blast
  qed
qed

lemma calculate_Safe2_returns:
  "\<exists>fr. calculate_Safe2_change_in_vmt epc tm_run_id inp = Inr fr"
  using safe2_melt_frame[of "summarize_auto_times (auto_times_df inp)"
          "ft_metrics_df (loaded_network_df inp) (tm_network_links_taz_df inp) epc"]
  by (simp add: calculate_Safe2_change_in_vmt_def Let_def melt_data)



end
